theory Spec2Isabelle
  imports Complex_Main
begin

section \<open>Strings of the host language\<close>

text \<open>
  A string is a list of code units. The model covers the code units below 256
  (the Latin-1 range), which is what \<^typ>\<open>char\<close> holds; \<open>length\<close> is then the
  \<open>.length\<close> of the source string. The functions below are the library
  operations the program calls, restricted to that range.
\<close>

text \<open>White space as \<open>trim\<close> and the pattern class \<open>\s\<close> see it: tab, line feed,
  vertical tab, form feed, carriage return, space, no-break space.\<close>

definition isWhiteSpace :: "char \<Rightarrow> bool" where
  "isWhiteSpace c \<longleftrightarrow>
     c = CHR 0x09 \<or> c = CHR 0x0A \<or> c = CHR 0x0B \<or> c = CHR 0x0C \<or> c = CHR 0x0D
     \<or> c = CHR 0x20 \<or> c = CHR 0xA0"

text \<open>Line terminators, which the pattern \<open>.\<close> does not match.\<close>

definition isLineTerminator :: "char \<Rightarrow> bool" where
  "isLineTerminator c \<longleftrightarrow> c = CHR 0x0A \<or> c = CHR 0x0D"

definition trimStart :: "string \<Rightarrow> string" where
  "trimStart s = dropWhile isWhiteSpace s"

definition trimEnd :: "string \<Rightarrow> string" where
  "trimEnd s = rev (dropWhile isWhiteSpace (rev s))"

definition trim :: "string \<Rightarrow> string" where
  "trim s = trimEnd (trimStart s)"

text \<open>\<open>toLowerCase\<close> on one code unit: the letters A to Z and the accented capitals
  of Latin-1 (0xC0 to 0xDE without the multiplication sign 0xD7) move up by 32.\<close>

definition toLowerCase_char :: "char \<Rightarrow> char" where
  "toLowerCase_char c =
     (let n = (of_char c :: nat)
      in if (65 \<le> n \<and> n \<le> 90) \<or> (192 \<le> n \<and> n \<le> 222 \<and> n \<noteq> 215)
         then char_of (n + 32) else c)"

definition toLowerCase :: "string \<Rightarrow> string" where
  "toLowerCase s = map toLowerCase_char s"

text \<open>The canonical form a case-insensitive pattern compares: the upper-case
  letter where that is a single code unit of the range.\<close>

definition canonicalize :: "char \<Rightarrow> char" where
  "canonicalize c =
     (let n = (of_char c :: nat)
      in if (97 \<le> n \<and> n \<le> 122) \<or> (224 \<le> n \<and> n \<le> 254 \<and> n \<noteq> 247)
         then char_of (n - 32) else c)"

text \<open>\<open>s.startsWith(p)\<close> and \<open>s.includes(p)\<close>.\<close>

fun startsWith :: "string \<Rightarrow> string \<Rightarrow> bool" where
  "startsWith s [] = True"
| "startsWith [] (p # ps) = False"
| "startsWith (c # cs) (p # ps) = (c = p \<and> startsWith cs ps)"

text \<open>\<open>startsWith_ci s p\<close>: the literal \<open>p\<close> of a pattern with the flag \<open>i\<close> matches
  at the start of \<open>s\<close>.\<close>

fun startsWith_ci :: "string \<Rightarrow> string \<Rightarrow> bool" where
  "startsWith_ci s [] = True"
| "startsWith_ci [] (p # ps) = False"
| "startsWith_ci (c # cs) (p # ps) =
     (canonicalize c = canonicalize p \<and> startsWith_ci cs ps)"

fun includes_str :: "string \<Rightarrow> string \<Rightarrow> bool" where
  "includes_str [] p = (p = [])"
| "includes_str (c # cs) p = (startsWith (c # cs) p \<or> includes_str cs p)"

text \<open>\<open>test_ci s p\<close>: the pattern \<open>/p/i\<close>, a literal, matches somewhere in \<open>s\<close>.\<close>

fun test_ci :: "string \<Rightarrow> string \<Rightarrow> bool" where
  "test_ci [] p = (p = [])"
| "test_ci (c # cs) p = (startsWith_ci (c # cs) p \<or> test_ci cs p)"

text \<open>A number of the host language is a real number here; the values that are
  not numbers and the infinite ones are left out. A number is made whole by
  dropping its fraction.\<close>

definition toInteger :: "real \<Rightarrow> int" where
  "toInteger x = (if 0 \<le> x then \<lfloor>x\<rfloor> else \<lceil>x\<rceil>)"

text \<open>\<open>s.substring(a, b)\<close>: both arguments are made whole, clamped to the string and
  swapped when the first is the larger one.\<close>

definition substring :: "string \<Rightarrow> real \<Rightarrow> real \<Rightarrow> string" where
  "substring s a b =
     (let n = int (length s);
          a' = max 0 (min (toInteger a) n);
          b' = max 0 (min (toInteger b) n);
          lo = min a' b';
          hi = max a' b'
      in take (nat (hi - lo)) (drop (nat lo) s))"

text \<open>\<open>s.split('\n')\<close>: the pieces between line feeds, a single empty piece for
  the empty string.\<close>

fun split_lines :: "string \<Rightarrow> string list" where
  "split_lines [] = [[]]"
| "split_lines (c # cs) =
     (if c = CHR 0x0A then [] # split_lines cs
      else (case split_lines cs of
              [] \<Rightarrow> [[c]]
            | l # ls \<Rightarrow> (c # l) # ls))"

text \<open>\<open>xs.join(sep)\<close>.\<close>

fun join :: "string \<Rightarrow> string list \<Rightarrow> string" where
  "join sep [] = []"
| "join sep [x] = x"
| "join sep (x # y # ys) = x @ sep @ join sep (y # ys)"

text \<open>The decimal numeral of a natural number, as a template literal prints a
  count or an index.\<close>

definition digit_char :: "nat \<Rightarrow> char" where
  "digit_char d = char_of (48 + d)"

function numberToString :: "nat \<Rightarrow> string" where
  "numberToString n =
     (if n < 10 then [digit_char n]
      else numberToString (n div 10) @ [digit_char (n mod 10)])"
  by pat_completeness auto
termination
  by (relation "measure id") auto

declare numberToString.simps [simp del]

text \<open>\<open>[...new Set(xs)]\<close>: the first occurrence of every element, in order.\<close>

fun uniq_from :: "'a list \<Rightarrow> 'a list \<Rightarrow> 'a list" where
  "uniq_from seen [] = []"
| "uniq_from seen (x # xs) =
     (if x \<in> set seen then uniq_from seen xs else x # uniq_from (x # seen) xs)"

definition uniq :: "'a list \<Rightarrow> 'a list" where
  "uniq xs = uniq_from [] xs"

text \<open>\<open>s.replace(p, '')\<close> with a string \<open>p\<close>: the first occurrence of \<open>p\<close> is
  removed.\<close>

fun replace_first :: "string \<Rightarrow> string \<Rightarrow> string" where
  "replace_first [] p = []"
| "replace_first (c # cs) p =
     (if startsWith (c # cs) p then drop (length p) (c # cs)
      else c # replace_first cs p)"

text \<open>The first result of a list of attempts: the order in which a backtracking
  matcher tries its alternatives.\<close>

fun first_some :: "'a option list \<Rightarrow> 'a option" where
  "first_some [] = None"
| "first_some (None # xs) = first_some xs"
| "first_some (Some r # xs) = Some r"

text \<open>A pattern \<open>/^(a1|a2|...):/\<close>, with or without the flag \<open>i\<close>: the number of
  code units it matches at the start of the line, for the first alternative
  that is followed by a colon.\<close>

definition prefix_match :: "bool \<Rightarrow> string list \<Rightarrow> string \<Rightarrow> nat option" where
  "prefix_match ci alts line =
     first_some (map (\<lambda>a. if (if ci then startsWith_ci line (a @ '':'')
                                 else startsWith line (a @ '':''))
                            then Some (Suc (length a)) else None) alts)"

text \<open>\<open>line.replace(pattern, '')\<close> for such a pattern.\<close>

definition replace_prefix :: "bool \<Rightarrow> string list \<Rightarrow> string \<Rightarrow> string" where
  "replace_prefix ci alts line =
     (case prefix_match ci alts line of None \<Rightarrow> line | Some n \<Rightarrow> drop n line)"

section \<open>The conversation parser\<close>

text \<open>The class \<open>ConversationParser\<close> and the types of its result.\<close>

datatype Role = User | Assistant | System

record ParsedMessage =
  role :: Role
  content :: string
  timestamp :: "string option"
  m_metadata :: "(string \<times> string) list option"

record ParsedConversation =
  title :: string
  source :: string
  messages :: "ParsedMessage list"
  metadata :: "(string \<times> string) list"
  tags :: "string list"
  category :: "string option"

text \<open>\<open>sourcePatterns\<close>: the case-insensitive literals of each source, in the order
  of the object's keys.\<close>

definition sourcePatterns :: "(string \<times> string list) list" where
  "sourcePatterns =
     [(''chatgpt'', [''ChatGPT'', ''OpenAI'', ''GPT-4'', ''GPT-3.5'', ''Chat History'']),
      (''claude'', [''Claude'', ''Anthropic'', ''Claude-3'', ''Claude-2'']),
      (''gemini'', [''Gemini'', ''Google AI'', ''Bard'']),
      (''perplexity'', [''Perplexity'', ''Perplexity AI''])]"

fun detectSource_loop :: "(string \<times> string list) list \<Rightarrow> string \<Rightarrow> string" where
  "detectSource_loop [] txt = ''custom''"
| "detectSource_loop ((src, patterns) # rest) txt =
     (if list_ex (\<lambda>pattern. test_ci txt pattern) patterns then src
      else detectSource_loop rest txt)"

definition detectSource :: "string \<Rightarrow> string" where
  "detectSource txt = detectSource_loop sourcePatterns txt"

text \<open>The state of a parsing loop: the messages pushed so far, \<open>currentRole\<close> and
  \<open>currentContent\<close>.\<close>

type_synonym parse_state = "ParsedMessage list \<times> Role \<times> string"

definition mk_message :: "Role \<Rightarrow> string \<Rightarrow> ParsedMessage" where
  "mk_message r c = \<lparr>role = r, content = c, timestamp = None, m_metadata = None\<rparr>"

text \<open>\<open>if (currentContent.trim()) messages.push({ role: currentRole, content:
  currentContent.trim() })\<close>.\<close>

definition push_current :: "parse_state \<Rightarrow> ParsedMessage list" where
  "push_current st =
     (case st of (msgs, currentRole, currentContent) \<Rightarrow>
        if trim currentContent \<noteq> [] then msgs @ [mk_message currentRole (trim currentContent)]
        else msgs)"

text \<open>One turn of the loop over the lines. \<open>boundary line\<close> is the chain of tests
  of the parser at hand: the role of the matched prefix and the rest of the
  line, trimmed, or \<open>None\<close> for the final \<open>else\<close>.\<close>

definition parse_line :: "(string \<Rightarrow> (Role \<times> string) option) \<Rightarrow> parse_state \<Rightarrow> string \<Rightarrow> parse_state" where
  "parse_line boundary st line =
     (case boundary line of
        Some (r, rest) \<Rightarrow> (push_current st, r, rest)
      | None \<Rightarrow>
          (case st of (msgs, currentRole, currentContent) \<Rightarrow>
             (msgs, currentRole,
              if currentContent \<noteq> [] then currentContent @ [CHR 0x0A] @ line else line)))"

definition parse_messages :: "(string \<Rightarrow> (Role \<times> string) option) \<Rightarrow> string \<Rightarrow> ParsedMessage list" where
  "parse_messages boundary txt =
     push_current (foldl (parse_line boundary) ([], User, []) (split_lines txt))"

text \<open>The title: the first line of the first message when that message is the
  user's and the line is shorter than 100, the default otherwise.\<close>

definition extractTitle :: "string \<Rightarrow> ParsedMessage list \<Rightarrow> string" where
  "extractTitle dflt msgs =
     (case msgs of
        [] \<Rightarrow> dflt
      | m # _ \<Rightarrow>
          if role m = User then
            (let firstLine = hd (split_lines (content m))
             in if length firstLine < 100 then firstLine else dflt)
          else dflt)"

definition extractTags :: "string \<Rightarrow> string list" where
  "extractTags txt =
     (if includes_str (toLowerCase txt) ''code'' \<or> includes_str txt ''```''
        then [''code''] else [])
     @ (if includes_str (toLowerCase txt) ''api'' \<or> includes_str (toLowerCase txt) ''endpoint''
        then [''api''] else [])
     @ (if includes_str (toLowerCase txt) ''database'' \<or> includes_str (toLowerCase txt) ''sql''
        then [''database''] else [])
     @ (if includes_str (toLowerCase txt) ''frontend'' \<or> includes_str (toLowerCase txt) ''react''
        then [''frontend''] else [])
     @ (if includes_str (toLowerCase txt) ''backend'' \<or> includes_str (toLowerCase txt) ''server''
        then [''backend''] else [])
     @ (if includes_str (toLowerCase txt) ''deployment'' \<or> includes_str (toLowerCase txt) ''docker''
        then [''deployment''] else [])"

text \<open>\<open>ConversationParser.categorizeConversation\<close>, the parser's own labelling of
  the messages.\<close>

definition parser_categorizeConversation :: "ParsedMessage list \<Rightarrow> string" where
  "parser_categorizeConversation msgs =
     (let c = toLowerCase (join '' '' (map content msgs))
      in if includes_str c ''code'' \<or> includes_str c ''```'' then ''technical''
         else if includes_str c ''design'' \<or> includes_str c ''ui'' \<or> includes_str c ''ux'' then ''design''
         else if includes_str c ''business'' \<or> includes_str c ''strategy'' then ''business''
         else if includes_str c ''learning'' \<or> includes_str c ''tutorial'' then ''learning''
         else ''general'')"

definition mk_conversation :: "string \<Rightarrow> string \<Rightarrow> string \<Rightarrow> ParsedMessage list \<Rightarrow> ParsedConversation" where
  "mk_conversation src dflt raw msgs =
     \<lparr>title = extractTitle dflt msgs,
      source = src,
      messages = msgs,
      metadata = [(''originalFormat'', src)],
      tags = extractTags raw,
      category = Some (parser_categorizeConversation msgs)\<rparr>"

definition chatgpt_boundary :: "string \<Rightarrow> (Role \<times> string) option" where
  "chatgpt_boundary line =
     (if startsWith line ''User:'' then Some (User, trim (replace_first line ''User:''))
      else if startsWith line ''Assistant:'' \<or> startsWith line ''ChatGPT:''
        then Some (Assistant, trim (replace_prefix False [''Assistant'', ''ChatGPT''] line))
      else if startsWith line ''System:'' then Some (System, trim (replace_first line ''System:''))
      else None)"

definition parseChatGPT :: "string \<Rightarrow> ParsedConversation" where
  "parseChatGPT txt =
     mk_conversation ''chatgpt'' ''ChatGPT Conversation'' txt
       (parse_messages chatgpt_boundary txt)"

definition claude_boundary :: "string \<Rightarrow> (Role \<times> string) option" where
  "claude_boundary line =
     (if startsWith line ''Human:'' then Some (User, trim (replace_first line ''Human:''))
      else if startsWith line ''Assistant:'' \<or> startsWith line ''Claude:''
        then Some (Assistant, trim (replace_prefix False [''Assistant'', ''Claude''] line))
      else if startsWith line ''System:'' then Some (System, trim (replace_first line ''System:''))
      else None)"

definition parseClaude :: "string \<Rightarrow> ParsedConversation" where
  "parseClaude txt =
     mk_conversation ''claude'' ''Claude Conversation'' txt
       (parse_messages claude_boundary txt)"

definition gemini_boundary :: "string \<Rightarrow> (Role \<times> string) option" where
  "gemini_boundary line =
     (if startsWith line ''User:'' then Some (User, trim (replace_first line ''User:''))
      else if startsWith line ''Gemini:'' \<or> startsWith line ''Assistant:''
        then Some (Assistant, trim (replace_prefix False [''Gemini'', ''Assistant''] line))
      else None)"

definition parseGemini :: "string \<Rightarrow> ParsedConversation" where
  "parseGemini txt =
     mk_conversation ''gemini'' ''Gemini Conversation'' txt
       (parse_messages gemini_boundary txt)"

definition perplexity_boundary :: "string \<Rightarrow> (Role \<times> string) option" where
  "perplexity_boundary line =
     (if startsWith line ''User:'' then Some (User, trim (replace_first line ''User:''))
      else if startsWith line ''Perplexity:'' \<or> startsWith line ''Assistant:''
        then Some (Assistant, trim (replace_prefix False [''Perplexity'', ''Assistant''] line))
      else None)"

definition parsePerplexity :: "string \<Rightarrow> ParsedConversation" where
  "parsePerplexity txt =
     mk_conversation ''perplexity'' ''Perplexity Conversation'' txt
       (parse_messages perplexity_boundary txt)"

text \<open>The three patterns of the custom format, tried in order on every line.\<close>

definition custom_patterns :: "(Role \<times> string list) list" where
  "custom_patterns =
     [(User, [''User'', ''Human'', ''Me'', ''I'']),
      (Assistant, [''Assistant'', ''AI'', ''Bot'', ''ChatGPT'', ''Claude'', ''Gemini'', ''Perplexity'']),
      (System, [''System'', ''Context'', ''Instructions''])]"

definition custom_boundary :: "string \<Rightarrow> (Role \<times> string) option" where
  "custom_boundary line =
     first_some (map (\<lambda>(r, alts).
                        if prefix_match True alts line \<noteq> None
                        then Some (r, trim (replace_prefix True alts line)) else None)
                     custom_patterns)"

definition parseCustom :: "string \<Rightarrow> ParsedConversation" where
  "parseCustom txt =
     mk_conversation ''custom'' ''Custom Conversation'' txt
       (parse_messages custom_boundary txt)"

definition parse :: "string \<Rightarrow> ParsedConversation" where
  "parse txt =
     (let src = detectSource txt
      in if src = ''chatgpt'' then parseChatGPT txt
         else if src = ''claude'' then parseClaude txt
         else if src = ''gemini'' then parseGemini txt
         else if src = ''perplexity'' then parsePerplexity txt
         else parseCustom txt)"

section \<open>The smart highlighter\<close>

text \<open>The class \<open>SmartHighlighter\<close> and the types of its result.\<close>

datatype Category = Code | Insight | Action_item | Resource | Question | Other

text \<open>Indices and offsets are numbers, which may be negative and need not be
  whole. The fields of a highlight that share a name with a field of the
  conversation carry the prefix \<open>h_\<close>.\<close>

record Position =
  messageIndex :: real
  startChar :: real
  endChar :: real

record Highlight =
  h_content :: string
  h_category :: Category
  confidence_score :: real
  h_tags :: "string list"
  h_notes :: "string option"
  position :: Position

record CategorizationResult =
  highlights :: "Highlight list"
  summary :: string
  key_topics :: "string list"
  action_items :: "string list"
  resources :: "string list"
  questions :: "string list"

subsection \<open>The three patterns of the fallback path\<close>

text \<open>What \<open>exec\<close> returns: \<open>match.index\<close>, \<open>match[0]\<close> and \<open>match[1]\<close> (empty for
  a pattern without a group).\<close>

record RegExpMatch =
  index :: nat
  m0 :: string
  m1 :: string

text \<open>A greedy \<open>*\<close> over a character class followed by the rest of the pattern:
  the longest run is tried first, then every shorter one. A lazy \<open>+\<close> tries one
  character first, then every longer run. \<open>k n\<close> is the rest of the pattern
  after \<open>n\<close> characters of the run.\<close>

definition star_greedy :: "(char \<Rightarrow> bool) \<Rightarrow> string \<Rightarrow> (nat \<Rightarrow> 'a option) \<Rightarrow> 'a option" where
  "star_greedy P x k = first_some (map k (rev [0 ..< Suc (length (takeWhile P x))]))"

definition plus_lazy :: "(char \<Rightarrow> bool) \<Rightarrow> string \<Rightarrow> (nat \<Rightarrow> 'a option) \<Rightarrow> 'a option" where
  "plus_lazy P x k = first_some (map k [1 ..< Suc (length (takeWhile P x))])"

text \<open>\<open>indexOf x p\<close>: the first offset at which \<open>p\<close> occurs in \<open>x\<close>.\<close>

fun indexOf :: "string \<Rightarrow> string \<Rightarrow> nat option" where
  "indexOf [] p = (if p = [] then Some 0 else None)"
| "indexOf (c # cs) p =
     (if startsWith (c # cs) p then Some 0 else map_option Suc (indexOf cs p))"

text \<open>The pattern of code blocks, three backquotes, a lazy run of any characters,
  three backquotes, matched at the start of \<open>x\<close>: the run ends at the first
  closing fence.\<close>

definition codeBlockRegex_at :: "string \<Rightarrow> string option" where
  "codeBlockRegex_at x =
     (if startsWith x ''```'' then
        (case indexOf (drop 3 x) ''```'' of
           None \<Rightarrow> None
         | Some j \<Rightarrow> Some (take (3 + j + 3) x))
      else None)"

text \<open>The pattern of questions, a greedy run of characters other than \<open>.\<close>, \<open>!\<close>
  and \<open>?\<close>, then \<open>?\<close>, matched at the start of \<open>x\<close>.\<close>

definition questionRegex_at :: "string \<Rightarrow> string option" where
  "questionRegex_at x =
     star_greedy (\<lambda>c. c \<noteq> CHR ''.'' \<and> c \<noteq> CHR ''!'' \<and> c \<noteq> CHR ''?'') x
       (\<lambda>n. case drop n x of
               [] \<Rightarrow> None
             | c # _ \<Rightarrow> if c = CHR ''?'' then Some (take (Suc n) x) else None)"

text \<open>The pattern of action items, piece by piece, each piece taking the offset
  \<open>n\<close> it starts at in \<open>x\<close>. Without the flag \<open>m\<close> the anchors \<open>^\<close> and \<open>$\<close> are the
  two ends of the whole text. The result is \<open>match[0]\<close> and \<open>match[1]\<close>.

  The last piece: a lazy run of one or more characters of a line, the group,
  then a line feed or the end of the text.\<close>

definition action_tail :: "string \<Rightarrow> nat \<Rightarrow> (string \<times> string) option" where
  "action_tail x n =
     plus_lazy (\<lambda>c. \<not> isLineTerminator c) (drop n x)
       (\<lambda>k. case drop (n + k) x of
               [] \<Rightarrow> Some (take (n + k) x, take k (drop n x))
             | c # _ \<Rightarrow> if c = CHR 0x0A then Some (take (n + k + 1) x, take k (drop n x))
                        else None)"

text \<open>Greedy white space before the group.\<close>

definition action_space :: "string \<Rightarrow> nat \<Rightarrow> (string \<times> string) option" where
  "action_space x n = star_greedy isWhiteSpace (drop n x) (\<lambda>w. action_tail x (n + w))"

text \<open>The optional colon, taken first when it is there.\<close>

definition action_colon :: "string \<Rightarrow> nat \<Rightarrow> (string \<times> string) option" where
  "action_colon x n =
     first_some [if startsWith (drop n x) '':'' then action_space x (n + 1) else None,
                 action_space x n]"

definition action_markers :: "string list" where
  "action_markers = [''TODO'', ''TASK'', ''ACTION'', ''NEXT STEP'', ''FUTURE'', ''PLAN'']"

text \<open>One of the markers, in any case.\<close>

definition action_marker :: "string \<Rightarrow> nat \<Rightarrow> (string \<times> string) option" where
  "action_marker x n =
     first_some (map (\<lambda>mk. if startsWith_ci (drop n x) mk
                            then action_colon x (n + length mk) else None)
                     action_markers)"

text \<open>The optional bullet: a hyphen or an asterisk and greedy white space. The
  other bullet of the pattern is the code unit 0x2022, which is not in the
  range of the model, so that alternative never matches here.\<close>

definition action_bullet :: "string \<Rightarrow> nat \<Rightarrow> (string \<times> string) option" where
  "action_bullet x n =
     first_some [if startsWith (drop n x) ''-'' \<or> startsWith (drop n x) ''*''
                 then star_greedy isWhiteSpace (drop (n + 1) x) (\<lambda>w. action_marker x (n + 1 + w))
                 else None,
                 action_marker x n]"

text \<open>The whole pattern at the start of \<open>x\<close>; \<open>at_start\<close> says that \<open>x\<close> is the
  whole text, where \<open>^\<close> matches.\<close>

definition actionItemRegex_at :: "bool \<Rightarrow> string \<Rightarrow> (string \<times> string) option" where
  "actionItemRegex_at at_start x =
     first_some [if at_start then action_bullet x 0 else None,
                 if startsWith x [CHR 0x0A] then action_bullet x 1 else None]"

text \<open>A match is never empty, so \<open>lastIndex\<close> moves forward at every turn of the
  loops below.\<close>

lemma indexOf_le: "indexOf x p = Some j \<Longrightarrow> j + length p \<le> length x"
proof (induction x arbitrary: j)
  case Nil
  then show ?case by (simp split: if_splits)
next
  case (Cons c cs)
  have sw: "startsWith y p \<Longrightarrow> length p \<le> length y" for y
    by (induction y p rule: startsWith.induct) auto
  show ?case
  proof (cases "startsWith (c # cs) p")
    case True
    with Cons.prems sw [of "c # cs"] show ?thesis by simp
  next
    case False
    with Cons.prems obtain j' where "indexOf cs p = Some j'" "j = Suc j'" by auto
    with Cons.IH [of j'] show ?thesis by simp
  qed
qed

lemma first_some_map: "first_some (map k ys) = Some r \<Longrightarrow> \<exists>y\<in>set ys. k y = Some r"
proof (induction ys)
  case Nil
  then show ?case by simp
next
  case (Cons y ys)
  then show ?case by (cases "k y") auto
qed

lemma first_some_pair: "first_some [a, b] = Some r \<Longrightarrow> a = Some r \<or> b = Some r"
  by (cases a; cases b) auto

lemma star_greedy_Some: "star_greedy P x k = Some r \<Longrightarrow> \<exists>n. k n = Some r"
  unfolding star_greedy_def by (blast dest: first_some_map)

lemma plus_lazy_Some:
  "plus_lazy P x k = Some r \<Longrightarrow> \<exists>n. 1 \<le> n \<and> n \<le> length (takeWhile P x) \<and> k n = Some r"
  unfolding plus_lazy_def by (fastforce dest: first_some_map)

lemma startsWith_length: "startsWith y p \<Longrightarrow> length p \<le> length y"
  by (induction y p rule: startsWith.induct) auto

lemma codeBlockRegex_at_nonempty: "codeBlockRegex_at x = Some m \<Longrightarrow> m \<noteq> []"
proof -
  assume a: "codeBlockRegex_at x = Some m"
  then have sw: "startsWith x ''```''"
    by (auto simp: codeBlockRegex_at_def split: if_splits)
  then have "x \<noteq> []" by (cases x) auto
  with a show ?thesis
    by (auto simp: codeBlockRegex_at_def split: if_splits option.splits)
qed

lemma questionRegex_at_nonempty: "questionRegex_at x = Some m \<Longrightarrow> m \<noteq> []"
proof -
  assume "questionRegex_at x = Some m"
  from star_greedy_Some [OF this [unfolded questionRegex_at_def]]
  obtain n where "(case drop n x of
                     [] \<Rightarrow> None
                   | c # _ \<Rightarrow> if c = CHR ''?'' then Some (take (Suc n) x) else None) = Some m"
    by blast
  then show ?thesis by (cases "drop n x") (auto split: if_splits)
qed

lemma action_tail_nonempty: "action_tail x n = Some (a, b) \<Longrightarrow> a \<noteq> []"
proof -
  assume "action_tail x n = Some (a, b)"
  from plus_lazy_Some [OF this [unfolded action_tail_def]]
  obtain k where k: "1 \<le> k" "k \<le> length (takeWhile (\<lambda>c. \<not> isLineTerminator c) (drop n x))"
    and r: "(case drop (n + k) x of
               [] \<Rightarrow> Some (take (n + k) x, take k (drop n x))
             | c # _ \<Rightarrow> if c = CHR 0x0A then Some (take (n + k + 1) x, take k (drop n x))
                        else None) = Some (a, b)"
    by auto
  from k have "x \<noteq> []"
    by auto
  with k r show ?thesis
    by (auto split: list.splits if_splits)
qed

lemma action_space_nonempty: "action_space x n = Some (a, b) \<Longrightarrow> a \<noteq> []"
  unfolding action_space_def by (blast dest: star_greedy_Some action_tail_nonempty)

lemma action_colon_nonempty: "action_colon x n = Some (a, b) \<Longrightarrow> a \<noteq> []"
  unfolding action_colon_def
  by (drule first_some_pair) (auto dest: action_space_nonempty split: if_splits)

lemma action_marker_nonempty: "action_marker x n = Some (a, b) \<Longrightarrow> a \<noteq> []"
  unfolding action_marker_def
  by (drule first_some_map) (auto dest: action_colon_nonempty split: if_splits)

lemma action_bullet_nonempty: "action_bullet x n = Some (a, b) \<Longrightarrow> a \<noteq> []"
  unfolding action_bullet_def
  by (drule first_some_pair)
     (auto dest: action_marker_nonempty dest!: star_greedy_Some split: if_splits)

lemma actionItemRegex_at_nonempty: "actionItemRegex_at b x = Some (m, g) \<Longrightarrow> m \<noteq> []"
  unfolding actionItemRegex_at_def
  by (drule first_some_pair) (auto dest: action_bullet_nonempty split: if_splits)

text \<open>The loops \<open>while ((match = regex.exec(content)) !== null)\<close> of a pattern with
  the flag \<open>g\<close>: \<open>i\<close> is \<open>lastIndex\<close>; \<open>exec\<close> tries every offset from there to the
  end of the text, returns the first match and leaves \<open>lastIndex\<close> behind it.\<close>

function codeBlockRegex_exec :: "string \<Rightarrow> nat \<Rightarrow> RegExpMatch list" where
  "codeBlockRegex_exec s i =
     (if length s < i then []
      else (case codeBlockRegex_at (drop i s) of
              None \<Rightarrow> codeBlockRegex_exec s (Suc i)
            | Some m \<Rightarrow> \<lparr>index = i, m0 = m, m1 = []\<rparr> # codeBlockRegex_exec s (i + length m)))"
  by pat_completeness auto
termination
proof (relation "measure (\<lambda>(s, i). Suc (length s) - i)", goal_cases)
  case 1
  show ?case by simp
next
  case (2 s i)
  then show ?case by simp
next
  case (3 s i m)
  from codeBlockRegex_at_nonempty [OF 3(2)] have "0 < length m" by simp
  with 3(1) show ?case by (simp del: length_greater_0_conv)
qed

declare codeBlockRegex_exec.simps [simp del]

function actionItemRegex_exec :: "string \<Rightarrow> nat \<Rightarrow> RegExpMatch list" where
  "actionItemRegex_exec s i =
     (if length s < i then []
      else (case actionItemRegex_at (i = 0) (drop i s) of
              None \<Rightarrow> actionItemRegex_exec s (Suc i)
            | Some (m, g) \<Rightarrow> \<lparr>index = i, m0 = m, m1 = g\<rparr> # actionItemRegex_exec s (i + length m)))"
  by pat_completeness auto
termination
proof (relation "measure (\<lambda>(s, i). Suc (length s) - i)", goal_cases)
  case 1
  show ?case by simp
next
  case (2 s i)
  then show ?case by simp
next
  case (3 s i r m g)
  then have "actionItemRegex_at (i = 0) (drop i s) = Some (m, g)" by simp
  from actionItemRegex_at_nonempty [OF this] have "0 < length m" by simp
  with 3(1) show ?case by (simp del: length_greater_0_conv)
qed

declare actionItemRegex_exec.simps [simp del]

function questionRegex_exec :: "string \<Rightarrow> nat \<Rightarrow> RegExpMatch list" where
  "questionRegex_exec s i =
     (if length s < i then []
      else (case questionRegex_at (drop i s) of
              None \<Rightarrow> questionRegex_exec s (Suc i)
            | Some m \<Rightarrow> \<lparr>index = i, m0 = m, m1 = []\<rparr> # questionRegex_exec s (i + length m)))"
  by pat_completeness auto
termination
proof (relation "measure (\<lambda>(s, i). Suc (length s) - i)", goal_cases)
  case 1
  show ?case by simp
next
  case (2 s i)
  then show ?case by simp
next
  case (3 s i m)
  from questionRegex_at_nonempty [OF 3(2)] have "0 < length m" by simp
  with 3(1) show ?case by (simp del: length_greater_0_conv)
qed

declare questionRegex_exec.simps [simp del]

subsection \<open>The extractors\<close>

definition span :: "nat \<Rightarrow> RegExpMatch \<Rightarrow> Position" where
  "span mi m =
     \<lparr>messageIndex = real mi,
      startChar = real (index m),
      endChar = real (index m + length (m0 m))\<rparr>"

definition extractCodeBlocks :: "string \<Rightarrow> nat \<Rightarrow> Highlight list" where
  "extractCodeBlocks txt mi =
     map (\<lambda>m. \<lparr>h_content = m0 m,
                 h_category = Code,
                 confidence_score = 0.9,
                 h_tags = [''code''],
                 h_notes = None,
                 position = span mi m\<rparr>)
         (codeBlockRegex_exec txt 0)"

definition extractActionItems :: "string \<Rightarrow> nat \<Rightarrow> Highlight list" where
  "extractActionItems txt mi =
     map (\<lambda>m. \<lparr>h_content = trim (m1 m),
                 h_category = Action_item,
                 confidence_score = 0.8,
                 h_tags = [''action'', ''todo''],
                 h_notes = None,
                 position = span mi m\<rparr>)
         (actionItemRegex_exec txt 0)"

definition extractQuestions :: "string \<Rightarrow> nat \<Rightarrow> Highlight list" where
  "extractQuestions txt mi =
     map (\<lambda>m. \<lparr>h_content = trim (m0 m),
                 h_category = Question,
                 confidence_score = 0.7,
                 h_tags = [''question''],
                 h_notes = None,
                 position = span mi m\<rparr>)
         (filter (\<lambda>m. 10 < length (trim (m0 m)) \<and> length (trim (m0 m)) < 200)
                 (questionRegex_exec txt 0))"

subsection \<open>Validation and enhancement\<close>

text \<open>What a function throws. A result is \<open>Inl\<close> of the error or \<open>Inr\<close> of the
  value returned.\<close>

datatype error = NoResponse | ParseError | TypeError | ApiError

text \<open>\<open>xs[i]\<close>: the element when \<open>i\<close> is a whole number inside the array,
  \<open>undefined\<close>, here \<open>None\<close>, for every other number.\<close>

definition array_get :: "'a list \<Rightarrow> real \<Rightarrow> 'a option" where
  "array_get xs i =
     (if i = of_int \<lfloor>i\<rfloor> \<and> 0 \<le> i \<and> i < real (length xs) then Some (xs ! nat \<lfloor>i\<rfloor>)
      else None)"

text \<open>Reading \<open>message.content\<close> of an undefined message throws. The guard on
  the index compares numbers, so an index between two whole numbers passes
  it.\<close>

definition validateHighlight :: "Highlight \<Rightarrow> ParsedConversation \<Rightarrow> error + bool" where
  "validateHighlight highlight conversation =
     (let mi = messageIndex (position highlight)
      in if mi < 0 \<or> mi \<ge> real (length (messages conversation)) then Inr False
         else
           (case array_get (messages conversation) mi of
              None \<Rightarrow> Inl TypeError
            | Some message \<Rightarrow>
                (let txt = content message;
                     sc = startChar (position highlight);
                     ec = endChar (position highlight)
                 in if sc < 0 \<or> ec > real (length txt) \<or> sc \<ge> ec then Inr False
                    else Inr (trim (substring txt sc ec) = trim (h_content highlight)))))"

text \<open>\<open>highlights.filter(highlight => this.validateHighlight(highlight, conversation))\<close>:
  an exception of the callback ends the filter.\<close>

fun filter_valid :: "Highlight list \<Rightarrow> ParsedConversation \<Rightarrow> error + Highlight list" where
  "filter_valid [] conversation = Inr []"
| "filter_valid (h # hs) conversation =
     (case validateHighlight h conversation of
        Inl e \<Rightarrow> Inl e
      | Inr keep \<Rightarrow>
          (case filter_valid hs conversation of
             Inl e \<Rightarrow> Inl e
           | Inr rest \<Rightarrow> Inr (if keep then h # rest else rest)))"

text \<open>The tags that \<open>enhanceHighlight\<close> pushes for what the content holds.\<close>

definition contentTags :: "string \<Rightarrow> string list" where
  "contentTags c =
     (if includes_str c ''```'' then [''code''] else [])
     @ (if includes_str c ''http'' then [''link''] else [])
     @ (if includes_str c ''?'' then [''question''] else [])
     @ (if includes_str (toLowerCase c) ''todo'' \<or> includes_str (toLowerCase c) ''task''
        then [''todo''] else [])"

definition enhanceHighlight :: "Highlight \<Rightarrow> ParsedConversation \<Rightarrow> Highlight" where
  "enhanceHighlight highlight conversation =
     (let enhancedTags = h_tags highlight @ contentTags (h_content highlight);
          uniqueTags = uniq enhancedTags
      in highlight\<lparr>h_tags := uniqueTags,
                   confidence_score := min (confidence_score highlight) 1.0\<rparr>)"

subsection \<open>The fallback path\<close>

definition generateFallbackSummary :: "ParsedConversation \<Rightarrow> string" where
  "generateFallbackSummary conversation =
     (let userMessages = filter (\<lambda>m. role m = User) (messages conversation);
          assistantMessages = filter (\<lambda>m. role m = Assistant) (messages conversation)
      in ''Conversation about '' @ title conversation @ '' with ''
         @ numberToString (length userMessages) @ '' user questions and ''
         @ numberToString (length assistantMessages) @ '' AI responses.'')"

definition extractKeyTopics :: "ParsedConversation \<Rightarrow> string list" where
  "extractKeyTopics conversation =
     (let c = toLowerCase (join '' '' (map content (messages conversation)));
          topics =
            (if includes_str c ''react'' \<or> includes_str c ''frontend'' then [''Frontend Development''] else [])
            @ (if includes_str c ''api'' \<or> includes_str c ''backend'' then [''Backend Development''] else [])
            @ (if includes_str c ''database'' \<or> includes_str c ''sql'' then [''Database''] else [])
            @ (if includes_str c ''deployment'' \<or> includes_str c ''docker'' then [''Deployment''] else [])
            @ (if includes_str c ''testing'' \<or> includes_str c ''test'' then [''Testing''] else [])
            @ (if includes_str c ''security'' \<or> includes_str c ''auth'' then [''Security''] else [])
      in if length topics > 0 then topics else [''General Discussion''])"

text \<open>The loop over the messages; \<open>mi\<close> is the counter \<open>messageIndex\<close>.\<close>

fun fallback_highlights :: "ParsedMessage list \<Rightarrow> nat \<Rightarrow> Highlight list" where
  "fallback_highlights [] mi = []"
| "fallback_highlights (message # rest) mi =
     (if role message = Assistant
      then extractCodeBlocks (content message) mi
           @ extractActionItems (content message) mi
           @ extractQuestions (content message) mi
      else [])
     @ fallback_highlights rest (Suc mi)"

definition fallbackCategorization :: "ParsedConversation \<Rightarrow> CategorizationResult" where
  "fallbackCategorization conversation =
     (let hs = fallback_highlights (messages conversation) 0
      in \<lparr>highlights = hs,
          summary = generateFallbackSummary conversation,
          key_topics = extractKeyTopics conversation,
          action_items = map h_content (filter (\<lambda>h. h_category h = Action_item) hs),
          resources = map h_content (filter (\<lambda>h. h_category h = Resource) hs),
          questions = map h_content (filter (\<lambda>h. h_category h = Question) hs)\<rparr>)"

subsection \<open>The oracle\<close>

text \<open>The completion request either fails (the promise is rejected) or gives the
  \<open>content\<close> of the first choice, which may be missing. The client is the
  function from the prompt to that outcome; no client is configured without an
  API key.\<close>

datatype completion = Rejected | Completed "string option"

type_synonym OpenAI = "string \<Rightarrow> completion"

text \<open>What \<open>JSON.parse\<close> gives for a reply that is read as a categorization
  result: every member may be missing. The parser itself is a parameter of the
  model, \<open>None\<close> standing for the exception it throws.\<close>

record ParsedResult =
  r_highlights :: "Highlight list option"
  r_summary :: "string option"
  r_key_topics :: "string list option"
  r_action_items :: "string list option"
  r_resources :: "string list option"
  r_questions :: "string list option"

text \<open>\<open>a || b\<close> on an optional list: an array, even an empty one, is kept.\<close>

definition or_empty :: "'a list option \<Rightarrow> 'a list" where
  "or_empty x = (case x of None \<Rightarrow> [] | Some xs \<Rightarrow> xs)"

text \<open>Reading \<open>result.highlights.filter\<close> of a result without highlights throws.\<close>

definition validateAndEnhanceResult :: "ParsedResult \<Rightarrow> ParsedConversation \<Rightarrow> error + CategorizationResult" where
  "validateAndEnhanceResult result conversation =
     (case r_highlights result of
        None \<Rightarrow> Inl TypeError
      | Some hs \<Rightarrow>
          (case filter_valid hs conversation of
             Inl e \<Rightarrow> Inl e
           | Inr valid \<Rightarrow>
               Inr \<lparr>highlights = map (\<lambda>h. enhanceHighlight h conversation) valid,
                    summary =
                      (case r_summary result of
                         None \<Rightarrow> generateFallbackSummary conversation
                       | Some t \<Rightarrow> if t = [] then generateFallbackSummary conversation else t),
                    key_topics = or_empty (r_key_topics result),
                    action_items = or_empty (r_action_items result),
                    resources = or_empty (r_resources result),
                    questions = or_empty (r_questions result)\<rparr>))"

definition role_upper :: "Role \<Rightarrow> string" where
  "role_upper r = (case r of User \<Rightarrow> ''USER'' | Assistant \<Rightarrow> ''ASSISTANT'' | System \<Rightarrow> ''SYSTEM'')"

definition prompt_tail :: string where
  \<open>prompt_tail = join [CHR 0x0A]
     [''Please provide a JSON response with the following structure:'',
      ''{'',
      ''  "highlights": ['',
      ''    {'',
      ''      "content": "exact text from conversation",'',
      ''      "category": "code|insight|action_item|resource|question|other",'',
      ''      "confidence_score": 0.95,'',
      ''      "tags": ["tag1", "tag2"],'',
      ''      "notes": "brief explanation",'',
      ''      "position": {'',
      ''        "messageIndex": 0,'',
      ''        "startChar": 0,'',
      ''        "endChar": 50'',
      ''      }'',
      ''    }'',
      ''  ],'',
      ''  "summary": "brief summary of the conversation",'',
      ''  "key_topics": ["topic1", "topic2"],'',
      ''  "action_items": ["action1", "action2"],'',
      ''  "resources": ["resource1", "resource2"],'',
      ''  "questions": ["question1", "question2"]'',
      ''}'',
      [],
      ''Focus on:'',
      ''- Code snippets and technical details'',
      ''- Actionable insights and recommendations'',
      ''- Resources, links, and references'',
      ''- Important questions and their answers'',
      ''- Key learnings and takeaways'',
      [],
      ''Ensure all highlights have valid positions and confidence scores.'']\<close>

definition buildCategorizationPrompt :: "ParsedConversation \<Rightarrow> string" where
  "buildCategorizationPrompt conversation =
     (let msgs = join [CHR 0x0A, CHR 0x0A]
                   (map (\<lambda>(i, msg). role_upper (role msg) @ '' ('' @ numberToString i @ ''): ''
                                       @ content msg)
                        (zip [0 ..< length (messages conversation)] (messages conversation)))
      in join [CHR 0x0A]
           [''Analyze this AI conversation and extract key highlights:'',
            [],
            ''CONVERSATION:'',
            msgs,
            [],
            ''SOURCE: '' @ source conversation,
            ''CATEGORY: '' @ (case category conversation of
                               None \<Rightarrow> ''general''
                             | Some c \<Rightarrow> if c = [] then ''general'' else c),
            [],
            prompt_tail])"

text \<open>The body of the outer \<open>try\<close> of \<open>categorizeConversation\<close>, up to the reply.\<close>

definition request_content :: "OpenAI \<Rightarrow> ParsedConversation \<Rightarrow> error + string" where
  "request_content openai conversation =
     (case openai (buildCategorizationPrompt conversation) of
        Rejected \<Rightarrow> Inl ApiError
      | Completed None \<Rightarrow> Inl NoResponse
      | Completed (Some c) \<Rightarrow> if c = [] then Inl NoResponse else Inr c)"

text \<open>The inner \<open>try\<close>: parse the reply, validate and enhance.\<close>

definition parse_and_validate :: "(string \<Rightarrow> ParsedResult option) \<Rightarrow> string \<Rightarrow> ParsedConversation \<Rightarrow> error + CategorizationResult" where
  "parse_and_validate json_parse c conversation =
     (case json_parse c of
        None \<Rightarrow> Inl ParseError
      | Some result \<Rightarrow> validateAndEnhanceResult result conversation)"

text \<open>\<open>categorizeConversation\<close>: what the returned promise settles to, \<open>Inl\<close> for a
  rejection and \<open>Inr\<close> for a result. Both \<open>catch\<close> clauses return the fallback
  categorization.\<close>

definition categorizeConversation :: "OpenAI option \<Rightarrow> (string \<Rightarrow> ParsedResult option) \<Rightarrow> ParsedConversation \<Rightarrow> error + CategorizationResult" where
  "categorizeConversation client json_parse conversation =
     (case client of
        None \<Rightarrow> Inr (fallbackCategorization conversation)
      | Some openai \<Rightarrow>
          (case request_content openai conversation of
             Inl e \<Rightarrow> Inr (fallbackCategorization conversation)
           | Inr c \<Rightarrow>
               (case parse_and_validate json_parse c conversation of
                  Inl e \<Rightarrow> Inr (fallbackCategorization conversation)
                | Inr r \<Rightarrow> Inr r)))"

text \<open>\<open>enhanceHighlightsWithAI\<close>. The prompt embeds \<open>JSON.stringify\<close> of the
  highlights, a parameter like the parser, which here reads the reply as a
  list of highlights (\<open>None\<close> when parsing or mapping over the value throws).\<close>

definition enhancePrompt :: "(Highlight list \<Rightarrow> string) \<Rightarrow> Highlight list \<Rightarrow> ParsedConversation \<Rightarrow> string" where
  "enhancePrompt json_stringify hs conversation =
     join [CHR 0x0A]
       [''Review and enhance these conversation highlights. For each highlight, suggest:'',
        ''1. Better categorization if needed'',
        ''2. Additional relevant tags'',
        ''3. Brief notes explaining the importance'',
        ''4. Adjust confidence score if needed'',
        [],
        ''Highlights: '' @ json_stringify hs,
        [],
        ''Conversation context: '' @ title conversation @ '' ('' @ source conversation @ '')'',
        [],
        ''Respond with enhanced highlights in JSON format.'']"

definition enhanceHighlightsWithAI :: "OpenAI option \<Rightarrow> (Highlight list \<Rightarrow> string) \<Rightarrow> (string \<Rightarrow> Highlight list option) \<Rightarrow> Highlight list \<Rightarrow> ParsedConversation \<Rightarrow> Highlight list" where
  "enhanceHighlightsWithAI client json_stringify json_parse hs conversation =
     (case client of
        None \<Rightarrow> hs
      | Some openai \<Rightarrow>
          (case openai (enhancePrompt json_stringify hs conversation) of
             Rejected \<Rightarrow> hs
           | Completed None \<Rightarrow> hs
           | Completed (Some c) \<Rightarrow>
               if c = [] then hs
               else (case json_parse c of
                       None \<Rightarrow> hs
                     | Some enhanced \<Rightarrow>
                         map (\<lambda>h. h\<lparr>confidence_score := min (confidence_score h) 1.0\<rparr>) enhanced)))"

section \<open>Concrete inputs\<close>

text \<open>The conversation that \<open>parse\<close> builds from the text
  \<open>Assistant: TODO: read more.\<close>\<close>

definition todo_conversation :: ParsedConversation where
  "todo_conversation =
     \<lparr>title = ''Custom Conversation'',
      source = ''custom'',
      messages = [mk_message Assistant ''TODO: read more.''],
      metadata = [(''originalFormat'', ''custom'')],
      tags = [],
      category = Some ''general''\<rparr>"

text \<open>Highlights an oracle may return for it: the whole message, with a score
  below 0 and with a score above 1.\<close>

definition scored_highlight :: "real \<Rightarrow> Highlight" where
  "scored_highlight x =
     \<lparr>h_content = ''TODO: read more.'',
      h_category = Action_item,
      confidence_score = x,
      h_tags = [],
      h_notes = None,
      position = \<lparr>messageIndex = 0, startChar = 0, endChar = 16\<rparr>\<rparr>"

definition scored_result :: "real \<Rightarrow> ParsedResult" where
  "scored_result x =
     \<lparr>r_highlights = Some [scored_highlight x],
      r_summary = None,
      r_key_topics = None,
      r_action_items = None,
      r_resources = None,
      r_questions = None\<rparr>"

text \<open>A client that always completes with the same reply, a parser that reads
  every reply as the same value, and one that always throws.\<close>

definition fixed_reply :: "string \<Rightarrow> OpenAI" where
  "fixed_reply c prompt = Completed (Some c)"

definition failing_client :: OpenAI where
  "failing_client prompt = Rejected"

definition parse_as :: "'a \<Rightarrow> string \<Rightarrow> 'a option" where
  "parse_as v c = Some v"

definition parse_fails :: "string \<Rightarrow> 'a option" where
  "parse_fails c = None"

definition stringify_stub :: "Highlight list \<Rightarrow> string" where
  "stringify_stub hs = ''[]''"

section \<open>Properties\<close>

subsection \<open>Lines\<close>

text \<open>A text always has a first line, the one \<open>extractTitle\<close> reads.\<close>

lemma split_lines_nonempty: "split_lines s \<noteq> []"
  by (induction s) (auto split: list.splits)

subsection \<open>Removing duplicate tags\<close>

lemma uniq_from_set: "set s1 = set s2 \<Longrightarrow> uniq_from s1 xs = uniq_from s2 xs"
proof (induction xs arbitrary: s1 s2)
  case Nil
  then show ?case by simp
next
  case (Cons x xs)
  have "set (x # s1) = set (x # s2)" using Cons.prems by simp
  from Cons.IH [OF this] Cons.IH [OF Cons.prems] Cons.prems show ?case by simp
qed

lemma set_uniq_from: "set (uniq_from seen xs) = set xs - set seen"
  by (induction xs arbitrary: seen) auto

lemma uniq_from_append:
  "uniq_from seen (xs @ ys) = uniq_from seen xs @ uniq_from (xs @ seen) ys"
proof (induction xs arbitrary: seen)
  case Nil
  then show ?case by simp
next
  case (Cons x xs)
  show ?case
  proof (cases "x \<in> set seen")
    case True
    then have "set ((x # xs) @ seen) = set (xs @ seen)" by auto
    from uniq_from_set [OF this] True Cons.IH [of seen] show ?thesis by simp
  next
    case False
    have "set ((x # xs) @ seen) = set (xs @ x # seen)" by auto
    from uniq_from_set [OF this] False Cons.IH [of "x # seen"] show ?thesis by simp
  qed
qed

lemma uniq_from_seen: "set ys \<subseteq> set seen \<Longrightarrow> uniq_from seen ys = []"
  by (induction ys) auto

lemma uniq_from_uniq_from: "uniq_from seen (uniq_from seen xs) = uniq_from seen xs"
  by (induction xs arbitrary: seen) simp_all

lemma set_uniq: "set (uniq xs) = set xs"
  by (simp add: uniq_def set_uniq_from)

lemma uniq_idem_append:
  assumes "set ys \<subseteq> set xs"
  shows "uniq (uniq xs @ ys) = uniq xs"
proof -
  have "set ys \<subseteq> set (uniq xs @ [])" using assms by (simp add: set_uniq)
  then have "uniq_from (uniq xs @ []) ys = []" by (rule uniq_from_seen)
  then show ?thesis
    by (simp add: uniq_def uniq_from_append uniq_from_uniq_from)
qed

subsection \<open>Enhancement\<close>

text \<open>C7. Enhancing an enhanced highlight changes nothing: the tags (as a list,
  hence as a set) and the confidence score of \<open>enhanceHighlight (enhanceHighlight h)\<close>
  are those of \<open>enhanceHighlight h\<close>, and so is every other field.\<close>

theorem enhanceHighlight_idempotent:
  "enhanceHighlight (enhanceHighlight h c) c' = enhanceHighlight h c"
proof -
  have "uniq (uniq (h_tags h @ contentTags (h_content h)) @ contentTags (h_content h))
        = uniq (h_tags h @ contentTags (h_content h))"
    by (rule uniq_idem_append) simp
  then show ?thesis
    by (simp add: enhanceHighlight_def Let_def)
qed

text \<open>C10. \<open>enhanceHighlight\<close> returns the content, the category, the notes and the
  position unchanged, keeps every tag of its argument and never increases the
  confidence score.\<close>

theorem enhanceHighlight_frame:
  "h_content (enhanceHighlight h c) = h_content h
   \<and> h_category (enhanceHighlight h c) = h_category h
   \<and> h_notes (enhanceHighlight h c) = h_notes h
   \<and> position (enhanceHighlight h c) = position h
   \<and> set (h_tags h) \<subseteq> set (h_tags (enhanceHighlight h c))
   \<and> confidence_score (enhanceHighlight h c) \<le> confidence_score h"
  by (simp add: enhanceHighlight_def Let_def set_uniq)

subsection \<open>The validator\<close>

text \<open>Between whole offsets inside the text, \<open>substring\<close> is the text between
  them.\<close>

lemma substring_whole:
  "i + n \<le> length s \<Longrightarrow> substring s (real i) (real (i + n)) = take n (drop i s)"
  by (simp add: substring_def toInteger_def Let_def min_def max_def)

text \<open>When no call of the validator throws, the filter keeps the highlights that
  the validator accepts.\<close>

lemma filter_valid_Inr:
  "filter_valid hs c = Inr vs \<Longrightarrow> vs = filter (\<lambda>h. validateHighlight h c = Inr True) hs"
proof (induction hs arbitrary: vs)
  case Nil
  then show ?case by simp
next
  case (Cons h hs)
  from Cons.prems obtain keep rest where k: "validateHighlight h c = Inr keep"
    and r: "filter_valid hs c = Inr rest" and vs: "vs = (if keep then h # rest else rest)"
    by (auto split: sum.splits)
  from Cons.IH [OF r] k vs show ?case by auto
qed

text \<open>With a whole message index the validator returns a boolean: false exactly
  when the index is outside the messages, or the offsets violate
  \<open>0 \<le> startChar < endChar \<le> length\<close> of the message text, or the trimmed text
  between the offsets differs from the trimmed content.\<close>

lemma validateHighlight_whole:
  assumes "messageIndex (position h) = real_of_int i"
  shows "validateHighlight h c =
     Inr (\<not> ((i < 0 \<or> int (length (messages c)) \<le> i)
              \<or> \<not> (0 \<le> startChar (position h)
                     \<and> startChar (position h) < endChar (position h)
                     \<and> endChar (position h) \<le> real (length (content (messages c ! nat i))))
              \<or> trim (substring (content (messages c ! nat i))
                         (startChar (position h)) (endChar (position h)))
                  \<noteq> trim (h_content h)))"
proof (cases "i < 0 \<or> int (length (messages c)) \<le> i")
  case True
  with assms show ?thesis by (auto simp: validateHighlight_def Let_def)
next
  case False
  with assms have g: "array_get (messages c) (messageIndex (position h))
                      = Some (messages c ! nat i)"
    by (simp add: array_get_def)
  from False assms have "\<not> (messageIndex (position h) < 0
      \<or> real (length (messages c)) \<le> messageIndex (position h))"
    by auto
  with False g show ?thesis
    by (auto simp: validateHighlight_def Let_def)
qed

text \<open>A highlight an oracle may return for the conversation of one message: the
  whole message, with the message index \<open>1/2\<close>.\<close>

definition fractional_highlight :: Highlight where
  "fractional_highlight =
     (scored_highlight 1)\<lparr>position := \<lparr>messageIndex = 1 / 2, startChar = 0, endChar = 16\<rparr>\<rparr>"

definition fractional_result :: ParsedResult where
  "fractional_result =
     \<lparr>r_highlights = Some [fractional_highlight],
      r_summary = None,
      r_key_topics = None,
      r_action_items = None,
      r_resources = None,
      r_questions = None\<rparr>"

text \<open>C6 fails on the code. For a conversation of one message, the message index
  \<open>1/2\<close> is neither below 0 nor at least 1, so it passes the guard; the
  message read at that index is undefined and reading its content throws. The
  exception leaves \<open>validateAndEnhanceResult\<close>, and \<open>categorizeConversation\<close>
  answers it with the fallback categorization.\<close>

theorem validateHighlight_fractional_index:
  "validateHighlight fractional_highlight todo_conversation = Inl TypeError
   \<and> validateAndEnhanceResult fractional_result todo_conversation = Inl TypeError
   \<and> categorizeConversation (Some (fixed_reply ''{...}'')) (parse_as fractional_result)
        todo_conversation
       = Inr (fallbackCategorization todo_conversation)"
proof -
  have v: "validateHighlight fractional_highlight todo_conversation = Inl TypeError"
    by (simp add: validateHighlight_def fractional_highlight_def todo_conversation_def
        array_get_def)
  then have r: "validateAndEnhanceResult fractional_result todo_conversation = Inl TypeError"
    by (simp add: validateAndEnhanceResult_def fractional_result_def)
  then have "categorizeConversation (Some (fixed_reply ''{...}'')) (parse_as fractional_result)
        todo_conversation
       = Inr (fallbackCategorization todo_conversation)"
    by (simp add: categorizeConversation_def request_content_def parse_and_validate_def
        fixed_reply_def parse_as_def)
  with v r show ?thesis by simp
qed

subsection \<open>The bound on scores\<close>

lemma validate_scored: "validateHighlight (scored_highlight x) todo_conversation = Inr True"
  by (simp add: validateHighlight_def scored_highlight_def todo_conversation_def
      mk_message_def substring_def toInteger_def array_get_def)

lemma enhance_scored:
  "validateAndEnhanceResult (scored_result x) todo_conversation =
     Inr \<lparr>highlights = [enhanceHighlight (scored_highlight x) todo_conversation],
          summary = generateFallbackSummary todo_conversation,
          key_topics = [], action_items = [], resources = [], questions = []\<rparr>"
  by (simp add: validateAndEnhanceResult_def scored_result_def validate_scored or_empty_def)

text \<open>C3, as stated, fails in both directions. A highlight that the oracle returns
  with the score \<open>-1/2\<close> at a valid position passes validation and leaves the
  enhancement step with the score \<open>-1/2\<close>. And the AI-enhance step returns a
  highlight with the score \<open>3/2\<close> as it is when no client is configured, when
  the request fails and when the reply does not parse.\<close>

theorem score_bound_counterexample:
  "map confidence_score
     (highlights (projr (validateAndEnhanceResult (scored_result (- 1 / 2)) todo_conversation)))
   = [- 1 / 2]
   \<and> confidence_score (enhanceHighlight (scored_highlight (- 1 / 2)) todo_conversation) < 0
   \<and> map confidence_score
        (enhanceHighlightsWithAI None stringify_stub (parse_as [])
           [scored_highlight (3 / 2)] todo_conversation) = [3 / 2]
   \<and> map confidence_score
        (enhanceHighlightsWithAI (Some failing_client) stringify_stub (parse_as [])
           [scored_highlight (3 / 2)] todo_conversation) = [3 / 2]
   \<and> map confidence_score
        (enhanceHighlightsWithAI (Some (fixed_reply ''not json'')) stringify_stub parse_fails
           [scored_highlight (3 / 2)] todo_conversation) = [3 / 2]"
  by (simp add: enhance_scored enhanceHighlight_def scored_highlight_def
      enhanceHighlightsWithAI_def failing_client_def fixed_reply_def parse_fails_def)

text \<open>C3, amended. \<open>enhanceHighlight\<close> leaves the smaller of the score before and
  1: at most 1, and at least 0 when the score before was; no lower bound is
  enforced. On the oracle path the scores of the result are those of the
  returned highlights that pass validation, each cut at 1. On the AI-enhance
  path, when the reply parses, the result is the highlights read from the
  reply, each with its score cut at 1; with no client, a failed request, a
  missing or empty reply or a reply that does not parse, the result is the
  input, scores included.\<close>

theorem score_upper_bound:
  "confidence_score (enhanceHighlight h c) = min (confidence_score h) 1
   \<and> confidence_score (enhanceHighlight h c) \<le> 1
   \<and> (0 \<le> confidence_score h \<longrightarrow> 0 \<le> confidence_score (enhanceHighlight h c))
   \<and> (r_highlights result = Some returned \<and> validateAndEnhanceResult result c = Inr r
        \<longrightarrow> map confidence_score (highlights r)
            = map (\<lambda>x. min (confidence_score x) 1)
                (filter (\<lambda>x. validateHighlight x c = Inr True) returned))
   \<and> (openai (enhancePrompt js hs c) = Completed (Some reply) \<and> reply \<noteq> []
          \<and> jp reply = Some enhanced
        \<longrightarrow> enhanceHighlightsWithAI (Some openai) js jp hs c
            = map (\<lambda>x. x\<lparr>confidence_score := min (confidence_score x) 1\<rparr>) enhanced)
   \<and> enhanceHighlightsWithAI None js jp hs c = hs
   \<and> (openai2 (enhancePrompt js hs c) = Rejected
          \<or> openai2 (enhancePrompt js hs c) = Completed None
          \<or> openai2 (enhancePrompt js hs c) = Completed (Some [])
          \<or> (\<exists>reply2. openai2 (enhancePrompt js hs c) = Completed (Some reply2)
                       \<and> jp2 reply2 = None)
        \<longrightarrow> enhanceHighlightsWithAI (Some openai2) js jp2 hs c = hs)"
proof -
  have e: "confidence_score (enhanceHighlight h' c) = min (confidence_score h') 1" for h'
    by (simp add: enhanceHighlight_def Let_def)
  have v: "map confidence_score (highlights r)
            = map (\<lambda>x. min (confidence_score x) 1)
                (filter (\<lambda>x. validateHighlight x c = Inr True) returned)"
    if "r_highlights result = Some returned" "validateAndEnhanceResult result c = Inr r"
  proof -
    from that obtain vs where vs: "filter_valid returned c = Inr vs"
      and r: "highlights r = map (\<lambda>h. enhanceHighlight h c) vs"
      by (auto simp: validateAndEnhanceResult_def split: sum.splits)
    from filter_valid_Inr [OF vs] r e show ?thesis by simp
  qed
  have a: "enhanceHighlightsWithAI (Some openai) js jp hs c
            = map (\<lambda>x. x\<lparr>confidence_score := min (confidence_score x) 1\<rparr>) enhanced"
    if "openai (enhancePrompt js hs c) = Completed (Some reply)" "reply \<noteq> []"
      "jp reply = Some enhanced"
    using that by (simp add: enhanceHighlightsWithAI_def)
  have n: "enhanceHighlightsWithAI None js jp hs c = hs"
    by (simp add: enhanceHighlightsWithAI_def)
  have f: "enhanceHighlightsWithAI (Some openai2) js jp2 hs c = hs"
    if "openai2 (enhancePrompt js hs c) = Rejected
          \<or> openai2 (enhancePrompt js hs c) = Completed None
          \<or> openai2 (enhancePrompt js hs c) = Completed (Some [])
          \<or> (\<exists>reply2. openai2 (enhancePrompt js hs c) = Completed (Some reply2)
                       \<and> jp2 reply2 = None)"
    using that by (auto simp: enhanceHighlightsWithAI_def)
  from e [of h] v a n f show ?thesis by (simp only: simp_thms) auto
qed

theorem score_upper_bound_witness:
  "confidence_score (enhanceHighlight (scored_highlight (3 / 2)) todo_conversation) = 1
   \<and> 0 \<le> confidence_score (scored_highlight (3 / 2))
   \<and> 0 \<le> confidence_score (enhanceHighlight (scored_highlight (3 / 2)) todo_conversation)
   \<and> r_highlights (scored_result (3 / 2)) = Some [scored_highlight (3 / 2)]
   \<and> validateAndEnhanceResult (scored_result (3 / 2)) todo_conversation =
       Inr \<lparr>highlights = [enhanceHighlight (scored_highlight (3 / 2)) todo_conversation],
            summary = generateFallbackSummary todo_conversation,
            key_topics = [], action_items = [], resources = [], questions = []\<rparr>
   \<and> map confidence_score
        (highlights (projr (validateAndEnhanceResult (scored_result (3 / 2)) todo_conversation)))
       = [1]
   \<and> fixed_reply ''[...]'' (enhancePrompt stringify_stub [scored_highlight 2] todo_conversation)
       = Completed (Some ''[...]'')
   \<and> parse_as [scored_highlight (3 / 2)] ''[...]'' = Some [scored_highlight (3 / 2)]
   \<and> enhanceHighlightsWithAI (Some (fixed_reply ''[...]'')) stringify_stub
        (parse_as [scored_highlight (3 / 2)]) [scored_highlight 2] todo_conversation
       = [scored_highlight 1]
   \<and> enhanceHighlightsWithAI None stringify_stub
        (parse_as [scored_highlight (3 / 2)]) [scored_highlight 2] todo_conversation
       = [scored_highlight 2]
   \<and> failing_client (enhancePrompt stringify_stub [scored_highlight 2] todo_conversation)
       = Rejected
   \<and> enhanceHighlightsWithAI (Some failing_client) stringify_stub parse_fails
        [scored_highlight 2] todo_conversation
       = [scored_highlight 2]"
proof -
  note t = score_upper_bound [where h = "scored_highlight (3 / 2)" and c = todo_conversation
      and result = "scored_result (3 / 2)" and returned = "[scored_highlight (3 / 2)]"
      and r = "\<lparr>highlights = [enhanceHighlight (scored_highlight (3 / 2)) todo_conversation],
        summary = generateFallbackSummary todo_conversation,
        key_topics = [], action_items = [], resources = [], questions = []\<rparr>"
      and openai = "fixed_reply ''[...]''" and js = stringify_stub
      and hs = "[scored_highlight 2]" and reply = "''[...]''"
      and jp = "parse_as [scored_highlight (3 / 2)]" and enhanced = "[scored_highlight (3 / 2)]"
      and ?openai2.0 = failing_client and ?jp2.0 = parse_fails]
  have s0: "0 \<le> confidence_score (scored_highlight (3 / 2))"
    by (simp add: scored_highlight_def)
  have rh: "r_highlights (scored_result (3 / 2)) = Some [scored_highlight (3 / 2)]"
    by (simp add: scored_result_def)
  note e = enhance_scored [of "3 / 2"]
  have fr: "fixed_reply ''[...]'' (enhancePrompt stringify_stub [scored_highlight 2] todo_conversation)
       = Completed (Some ''[...]'')"
    by (simp add: fixed_reply_def)
  have pa: "parse_as [scored_highlight (3 / 2)] ''[...]'' = Some [scored_highlight (3 / 2)]"
    by (simp add: parse_as_def)
  have fc: "failing_client (enhancePrompt stringify_stub [scored_highlight 2] todo_conversation)
       = Rejected"
    by (simp add: failing_client_def)
  have cut: "map (\<lambda>x. x\<lparr>confidence_score := min (confidence_score x) 1\<rparr>)
               [scored_highlight (3 / 2)] = [scored_highlight 1]"
    by (simp add: scored_highlight_def)
  from t have c1: "confidence_score (enhanceHighlight (scored_highlight (3 / 2)) todo_conversation)
                   = min (confidence_score (scored_highlight (3 / 2))) 1"
    by (rule conjunct1)
  then have c1': "confidence_score (enhanceHighlight (scored_highlight (3 / 2)) todo_conversation) = 1"
    by (simp add: scored_highlight_def)
  from t rh e have "map confidence_score
        (highlights \<lparr>highlights = [enhanceHighlight (scored_highlight (3 / 2)) todo_conversation],
            summary = generateFallbackSummary todo_conversation,
            key_topics = [], action_items = [], resources = [], questions = []\<rparr>)
       = map (\<lambda>x. min (confidence_score x) 1)
           (filter (\<lambda>x. validateHighlight x todo_conversation = Inr True)
              [scored_highlight (3 / 2)])"
    by blast
  then have o: "map confidence_score
        (highlights (projr (validateAndEnhanceResult (scored_result (3 / 2)) todo_conversation)))
       = [1]"
    by (simp add: e validate_scored) (simp add: scored_highlight_def)
  from t fr pa have "enhanceHighlightsWithAI (Some (fixed_reply ''[...]'')) stringify_stub
        (parse_as [scored_highlight (3 / 2)]) [scored_highlight 2] todo_conversation
       = map (\<lambda>x. x\<lparr>confidence_score := min (confidence_score x) 1\<rparr>)
           [scored_highlight (3 / 2)]"
    by blast
  with cut have p: "enhanceHighlightsWithAI (Some (fixed_reply ''[...]'')) stringify_stub
        (parse_as [scored_highlight (3 / 2)]) [scored_highlight 2] todo_conversation
       = [scored_highlight 1]"
    by simp
  from t have n: "enhanceHighlightsWithAI None stringify_stub
        (parse_as [scored_highlight (3 / 2)]) [scored_highlight 2] todo_conversation
       = [scored_highlight 2]"
    by blast
  from t fc have f: "enhanceHighlightsWithAI (Some failing_client) stringify_stub parse_fails
        [scored_highlight 2] todo_conversation
       = [scored_highlight 2]"
    by blast
  from c1' s0 rh e o fr pa p n fc f show ?thesis by simp
qed

subsection \<open>Source detection\<close>

lemma detectSource_loop_range:
  "detectSource_loop ps s \<in> set (map fst ps) \<union> {''custom''}"
  by (induction ps s rule: detectSource_loop.induct) auto

text \<open>C8. \<open>detectSource\<close> is a total function whose value is one of the five
  identifiers, and \<open>custom\<close> for the empty text.\<close>

theorem detectSource_total:
  "detectSource s \<in> set [''chatgpt'', ''claude'', ''gemini'', ''perplexity'', ''custom'']
   \<and> detectSource [] = ''custom''"
proof
  from detectSource_loop_range [of sourcePatterns s]
  show "detectSource s \<in> set [''chatgpt'', ''claude'', ''gemini'', ''perplexity'', ''custom'']"
    by (simp add: detectSource_def sourcePatterns_def)
  show "detectSource [] = ''custom''"
    by (simp add: detectSource_def sourcePatterns_def)
qed

subsection \<open>Failure of the oracle\<close>

text \<open>C4. With a client configured, when the completion request fails, or the
  reply is missing or empty, or the reply does not parse, the result of
  \<open>categorizeConversation\<close> is the fallback categorization of the same
  conversation; and whatever the client, the parser and the conversation are,
  \<open>categorizeConversation\<close> returns a result and never an error.\<close>

theorem oracle_failure_falls_back:
  "(openai (buildCategorizationPrompt c) = Rejected
      \<or> openai (buildCategorizationPrompt c) = Completed None
      \<or> openai (buildCategorizationPrompt c) = Completed (Some [])
      \<or> (\<exists>reply. openai (buildCategorizationPrompt c) = Completed (Some reply)
                  \<and> json_parse reply = None)
    \<longrightarrow> categorizeConversation (Some openai) json_parse c = Inr (fallbackCategorization c))
   \<and> (\<exists>r. categorizeConversation client json_parse c = Inr r)"
proof
  show "openai (buildCategorizationPrompt c) = Rejected
      \<or> openai (buildCategorizationPrompt c) = Completed None
      \<or> openai (buildCategorizationPrompt c) = Completed (Some [])
      \<or> (\<exists>reply. openai (buildCategorizationPrompt c) = Completed (Some reply)
                  \<and> json_parse reply = None)
    \<longrightarrow> categorizeConversation (Some openai) json_parse c = Inr (fallbackCategorization c)"
    by (auto simp: categorizeConversation_def request_content_def parse_and_validate_def)
  show "\<exists>r. categorizeConversation client json_parse c = Inr r"
    by (simp add: categorizeConversation_def split: option.split sum.split)
qed

theorem oracle_failure_falls_back_witness:
  "fixed_reply ''not json'' (buildCategorizationPrompt todo_conversation)
     = Completed (Some ''not json'')
   \<and> (parse_fails ''not json'' :: ParsedResult option) = None
   \<and> categorizeConversation (Some (fixed_reply ''not json'')) parse_fails todo_conversation
       = Inr (fallbackCategorization todo_conversation)"
  using oracle_failure_falls_back [of "fixed_reply ''not json''" todo_conversation parse_fails]
  by (simp add: fixed_reply_def parse_fails_def)

subsection \<open>The fallback summary\<close>

text \<open>The number that a decimal numeral denotes.\<close>

definition decimal_value :: "string \<Rightarrow> nat" where
  "decimal_value ds = foldl (\<lambda>a d. 10 * a + (of_char d - 48)) 0 ds"

lemma numberToString_value: "decimal_value (numberToString n) = n"
proof (induction n rule: numberToString.induct)
  case (1 n)
  show ?case
  proof (cases "n < 10")
    case True
    then show ?thesis
      by (subst numberToString.simps) (simp add: decimal_value_def digit_char_def)
  next
    case False
    have d: "of_char (digit_char (n mod 10)) - 48 = n mod 10"
      by (simp add: digit_char_def)
    from False "1.IH" have "decimal_value (numberToString (n div 10)) = n div 10" by simp
    with False d show ?thesis
      by (subst numberToString.simps) (simp add: decimal_value_def)
  qed
qed

text \<open>C5, as stated, fails: the summary of a conversation with no user message
  and one assistant message is not the sentence of the claim.\<close>

theorem summary_format_counterexample:
  "generateFallbackSummary todo_conversation
     = ''Conversation about Custom Conversation with 0 user questions and 1 AI responses.''
   \<and> generateFallbackSummary todo_conversation
     \<noteq> ''conversation about Custom Conversation with 0 user turns and 1 assistant turns''"
proof -
  have d: "numberToString 0 = ''0''" "numberToString (Suc 0) = ''1''"
    by code_simp+
  show ?thesis
    by (simp add: generateFallbackSummary_def todo_conversation_def mk_message_def d)
qed

text \<open>C5, amended. The fallback summary is \<open>Conversation about <title> with <N>
  user questions and <M> AI responses.\<close>, where \<open>N\<close> and \<open>M\<close>, printed in
  decimal, are the numbers of messages of the user and of the assistant.\<close>

theorem summary_format:
  "generateFallbackSummary c =
     ''Conversation about '' @ title c @ '' with ''
     @ numberToString (count_list (map role (messages c)) User) @ '' user questions and ''
     @ numberToString (count_list (map role (messages c)) Assistant) @ '' AI responses.''
   \<and> decimal_value (numberToString (count_list (map role (messages c)) User))
       = length (filter (\<lambda>m. role m = User) (messages c))
   \<and> decimal_value (numberToString (count_list (map role (messages c)) Assistant))
       = length (filter (\<lambda>m. role m = Assistant) (messages c))"
proof -
  have cnt: "count_list (map role ms) r = length (filter (\<lambda>m. role m = r) ms)" for ms r
    by (induction ms) auto
  show ?thesis
    by (simp add: generateFallbackSummary_def Let_def numberToString_value cnt)
qed

subsection \<open>The fallback path\<close>

lemma fallback_highlights_category:
  "h \<in> set (fallback_highlights ms i)
   \<Longrightarrow> h_category h = Code \<or> h_category h = Action_item \<or> h_category h = Question"
proof (induction ms arbitrary: i)
  case Nil
  then show ?case by simp
next
  case (Cons m ms)
  from Cons.prems Cons.IH [of "Suc i"] show ?case
    by (auto simp: extractCodeBlocks_def extractActionItems_def extractQuestions_def
        split: if_splits)
qed

text \<open>C9. Every highlight of the fallback categorization has the category code,
  action item or question; so its list of resources is empty, and without an
  oracle \<open>categorizeConversation\<close> returns exactly this categorization.\<close>

theorem fallback_categories:
  "(\<forall>h\<in>set (highlights (fallbackCategorization c)).
      h_category h = Code \<or> h_category h = Action_item \<or> h_category h = Question)
   \<and> resources (fallbackCategorization c) = []
   \<and> categorizeConversation None json_parse c = Inr (fallbackCategorization c)"
proof -
  have cat: "\<forall>h\<in>set (fallback_highlights (messages c) 0).
      h_category h = Code \<or> h_category h = Action_item \<or> h_category h = Question"
    using fallback_highlights_category by blast
  then have "filter (\<lambda>h. h_category h = Resource) (fallback_highlights (messages c) 0) = []"
    by (auto simp: filter_empty_conv)
  with cat show ?thesis
    by (simp add: fallbackCategorization_def Let_def categorizeConversation_def)
qed

subsection \<open>Texts without a match\<close>

lemma startsWith_hd: "startsWith x (p # ps) \<Longrightarrow> p \<in> set x"
  by (cases x) auto

lemma codeBlockRegex_exec_none:
  "CHR 0x60 \<notin> set s \<Longrightarrow> codeBlockRegex_exec s i = []"
proof (induction s i rule: codeBlockRegex_exec.induct)
  case (1 s i)
  have "codeBlockRegex_at (drop i s) = None"
  proof (rule ccontr)
    assume "codeBlockRegex_at (drop i s) \<noteq> None"
    then have "startsWith (drop i s) ''```''"
      by (auto simp: codeBlockRegex_at_def split: if_splits)
    then have "CHR 0x60 \<in> set (drop i s)" by (rule startsWith_hd)
    with "1.prems" show False by (auto dest: in_set_dropD)
  qed
  with 1 show ?case
    by (subst codeBlockRegex_exec.simps) simp
qed

lemma questionRegex_at_mark: "questionRegex_at x = Some m \<Longrightarrow> CHR ''?'' \<in> set x"
proof -
  assume "questionRegex_at x = Some m"
  from star_greedy_Some [OF this [unfolded questionRegex_at_def]]
  obtain n where "(case drop n x of
                     [] \<Rightarrow> None
                   | c # _ \<Rightarrow> if c = CHR ''?'' then Some (take (Suc n) x) else None) = Some m"
    by blast
  then have "CHR ''?'' \<in> set (drop n x)"
    by (cases "drop n x") (auto split: if_splits)
  then show ?thesis by (rule in_set_dropD)
qed

lemma questionRegex_exec_none:
  "CHR ''?'' \<notin> set s \<Longrightarrow> questionRegex_exec s i = []"
proof (induction s i rule: questionRegex_exec.induct)
  case (1 s i)
  have "questionRegex_at (drop i s) = None"
  proof (rule ccontr)
    assume "questionRegex_at (drop i s) \<noteq> None"
    then obtain m where "questionRegex_at (drop i s) = Some m" by auto
    then have "CHR ''?'' \<in> set (drop i s)" by (rule questionRegex_at_mark)
    with "1.prems" show False by (auto dest: in_set_dropD)
  qed
  with 1 show ?case
    by (subst questionRegex_exec.simps) simp
qed

lemma actionItemRegex_at_line:
  "actionItemRegex_at False x = Some r \<Longrightarrow> CHR 0x0A \<in> set x"
  unfolding actionItemRegex_at_def
  by (drule first_some_pair) (auto dest: startsWith_hd split: if_splits)

lemma actionItemRegex_exec_none:
  "CHR 0x0A \<notin> set s \<Longrightarrow> 0 < i \<Longrightarrow> actionItemRegex_exec s i = []"
proof (induction s i rule: actionItemRegex_exec.induct)
  case (1 s i)
  have "actionItemRegex_at False (drop i s) = None"
  proof (rule ccontr)
    assume "actionItemRegex_at False (drop i s) \<noteq> None"
    then obtain r where "actionItemRegex_at False (drop i s) = Some r" by auto
    then have "CHR 0x0A \<in> set (drop i s)" by (rule actionItemRegex_at_line)
    with "1.prems" show False by (auto dest: in_set_dropD)
  qed
  with 1 show ?case
    by (subst actionItemRegex_exec.simps) simp
qed

subsection \<open>An action item at the start of a message\<close>

text \<open>The highlight that the fallback path extracts from the message
  \<open>TODO: read more.\<close>\<close>

definition todo_highlight :: Highlight where
  "todo_highlight =
     \<lparr>h_content = ''read more.'',
      h_category = Action_item,
      confidence_score = 0.8,
      h_tags = [''action'', ''todo''],
      h_notes = None,
      position = \<lparr>messageIndex = 0, startChar = 0, endChar = 16\<rparr>\<rparr>"

lemma todo_match:
  "actionItemRegex_at True ''TODO: read more.'' = Some (''TODO: read more.'', ''read more.'')"
  by code_simp

lemma todo_exec:
  "actionItemRegex_exec ''TODO: read more.'' 0
   = [\<lparr>index = 0, m0 = ''TODO: read more.'', m1 = ''read more.''\<rparr>]"
proof -
  have later: "0 < i \<Longrightarrow> actionItemRegex_exec ''TODO: read more.'' i = []" for i
    by (rule actionItemRegex_exec_none) simp_all
  show ?thesis
    by (subst actionItemRegex_exec.simps) (simp add: todo_match later)
qed

lemma todo_fallback_highlights:
  "fallback_highlights (messages todo_conversation) 0 = [todo_highlight]"
proof -
  have c: "codeBlockRegex_exec ''TODO: read more.'' 0 = []"
    by (rule codeBlockRegex_exec_none) simp
  have q: "questionRegex_exec ''TODO: read more.'' 0 = []"
    by (rule questionRegex_exec_none) simp
  have t: "trim ''read more.'' = ''read more.''"
    by (simp add: trim_def trimStart_def trimEnd_def isWhiteSpace_def)
  show ?thesis
    by (simp add: todo_conversation_def mk_message_def extractCodeBlocks_def
        extractActionItems_def extractQuestions_def c q t todo_exec span_def todo_highlight_def)
qed

theorem fallback_categories_witness:
  "map h_category (highlights (fallbackCategorization todo_conversation)) = [Action_item]
   \<and> resources (fallbackCategorization todo_conversation) = []
   \<and> categorizeConversation None (parse_as (scored_result 1)) todo_conversation
       = Inr (fallbackCategorization todo_conversation)"
  using fallback_categories [of todo_conversation "parse_as (scored_result 1)"]
  by (simp add: fallbackCategorization_def Let_def todo_fallback_highlights todo_highlight_def)

subsection \<open>The closure scenario\<close>

definition scenario :: string where
  "scenario = ''User: What is a closure?'' @ [CHR 0x0A]
     @ ''Assistant: A closure is a function bundled with its lexical scope. TODO: read more.''"

definition scenario_question :: string where
  "scenario_question = ''What is a closure?''"

definition scenario_answer :: string where
  "scenario_answer =
     ''A closure is a function bundled with its lexical scope. TODO: read more.''"

definition scenario_conversation :: ParsedConversation where
  "scenario_conversation =
     \<lparr>title = scenario_question,
      source = ''custom'',
      messages = [mk_message User scenario_question, mk_message Assistant scenario_answer],
      metadata = [(''originalFormat'', ''custom'')],
      tags = [],
      category = Some ''general''\<rparr>"

definition scenario_categorization :: CategorizationResult where
  "scenario_categorization =
     \<lparr>highlights = [],
      summary =
        ''Conversation about What is a closure? with 1 user questions and 1 AI responses.'',
      key_topics = [''General Discussion''],
      action_items = [],
      resources = [],
      questions = []\<rparr>"

lemma startsWith_ci_canon:
  "startsWith_ci s p = startsWith (map canonicalize s) (map canonicalize p)"
  by (induction s p rule: startsWith_ci.induct) auto

lemma test_ci_canon: "test_ci s p = includes_str (map canonicalize s) (map canonicalize p)"
proof (induction s)
  case Nil
  then show ?case by simp
next
  case (Cons c cs)
  from startsWith_ci_canon [of "c # cs" p] Cons show ?case by simp
qed

lemma detectSource_custom:
  assumes "list_all (\<lambda>p. \<not> includes_str (map canonicalize s) p)
             (map (map canonicalize) (concat (map snd sourcePatterns)))"
  shows "detectSource s = ''custom''"
proof -
  have no: "\<not> test_ci s p" if "p \<in> set (concat (map snd sourcePatterns))" for p
  proof -
    from that have "map canonicalize p
        \<in> set (map (map canonicalize) (concat (map snd sourcePatterns)))"
      by (simp only: set_map image_eqI)
    with assms show ?thesis
      by (simp only: list_all_iff test_ci_canon) blast
  qed
  have "detectSource_loop ps s = ''custom''"
    if "set (concat (map snd ps)) \<subseteq> set (concat (map snd sourcePatterns))" for ps
    using that
  proof (induction ps)
    case Nil
    then show ?case by simp
  next
    case (Cons a ps)
    obtain src pats where a: "a = (src, pats)" by (cases a)
    have "\<not> test_ci s x" if "x \<in> set pats" for x
    proof -
      from that a have "x \<in> set (concat (map snd (a # ps)))" by simp
      with Cons.prems have "x \<in> set (concat (map snd sourcePatterns))" by blast
      then show ?thesis by (rule no)
    qed
    then have none: "\<not> list_ex (\<lambda>pattern. test_ci s pattern) pats"
      by (simp add: list_ex_iff)
    from Cons.prems have "set (concat (map snd ps)) \<subseteq> set (concat (map snd sourcePatterns))"
      by auto
    then have "detectSource_loop ps s = ''custom''" by (rule Cons.IH)
    with none a show ?case by simp
  qed
  then show ?thesis by (simp add: detectSource_def)
qed

lemma canonical_patterns:
  "map (map canonicalize) (concat (map snd sourcePatterns)) =
     [''CHATGPT'', ''OPENAI'', ''GPT-4'', ''GPT-3.5'', ''CHAT HISTORY'',
      ''CLAUDE'', ''ANTHROPIC'', ''CLAUDE-3'', ''CLAUDE-2'',
      ''GEMINI'', ''GOOGLE AI'', ''BARD'',
      ''PERPLEXITY'', ''PERPLEXITY AI'']"
  by code_simp

lemma scenario_canonical:
  "map canonicalize scenario = ''USER: WHAT IS A CLOSURE?'' @ [CHR 0x0A]
     @ ''ASSISTANT: A CLOSURE IS A FUNCTION BUNDLED WITH ITS LEXICAL SCOPE. TODO: READ MORE.''"
  by code_simp

lemma scenario_source: "detectSource scenario = ''custom''"
  by (rule detectSource_custom) (simp add: canonical_patterns scenario_canonical)

lemma scenario_messages:
  "parse_messages custom_boundary scenario
   = [mk_message User scenario_question, mk_message Assistant scenario_answer]"
  by code_simp

lemma scenario_lower:
  "toLowerCase scenario = ''user: what is a closure?'' @ [CHR 0x0A]
     @ ''assistant: a closure is a function bundled with its lexical scope. todo: read more.''"
  by code_simp

lemma scenario_joined_lower:
  "toLowerCase (scenario_question @ CHR '' '' # scenario_answer) =
     ''what is a closure? a closure is a function bundled with its lexical scope. todo: read more.''"
  by code_simp

lemma scenario_tags: "extractTags scenario = []"
proof -
  have "\<not> includes_str scenario ''```''"
    by (simp add: scenario_def)
  then show ?thesis
    by (simp add: extractTags_def scenario_lower)
qed

lemma scenario_category:
  "parser_categorizeConversation
     [mk_message User scenario_question, mk_message Assistant scenario_answer] = ''general''"
  by (simp add: parser_categorizeConversation_def Let_def mk_message_def scenario_joined_lower)

lemma scenario_title:
  "extractTitle ''Custom Conversation''
     [mk_message User scenario_question, mk_message Assistant scenario_answer]
   = scenario_question"
  by (simp add: extractTitle_def mk_message_def scenario_question_def)

lemma scenario_parse: "parse scenario = scenario_conversation"
  by (simp add: parse_def Let_def scenario_source parseCustom_def mk_conversation_def
      scenario_messages scenario_tags scenario_category scenario_title
      scenario_conversation_def)

lemma scenario_highlights:
  "fallback_highlights (messages scenario_conversation) 0 = []"
proof -
  have c: "codeBlockRegex_exec scenario_answer i = []" for i
    by (rule codeBlockRegex_exec_none) (simp add: scenario_answer_def)
  have q: "questionRegex_exec scenario_answer i = []" for i
    by (rule questionRegex_exec_none) (simp add: scenario_answer_def)
  have later: "0 < i \<Longrightarrow> actionItemRegex_exec scenario_answer i = []" for i
    by (rule actionItemRegex_exec_none) (simp_all add: scenario_answer_def)
  have first: "actionItemRegex_at True scenario_answer = None"
    by code_simp
  have a: "actionItemRegex_exec scenario_answer 0 = []"
    by (subst actionItemRegex_exec.simps) (simp add: first later)
  show ?thesis
    by (simp add: scenario_conversation_def mk_message_def extractCodeBlocks_def
        extractActionItems_def extractQuestions_def c q a)
qed

lemma scenario_topics: "extractKeyTopics scenario_conversation = [''General Discussion'']"
  by (simp add: extractKeyTopics_def Let_def scenario_conversation_def mk_message_def
      scenario_joined_lower)

lemma scenario_summary:
  "generateFallbackSummary scenario_conversation
   = ''Conversation about What is a closure? with 1 user questions and 1 AI responses.''"
proof -
  have d: "numberToString (Suc 0) = ''1''"
    by code_simp
  show ?thesis
    by (simp add: generateFallbackSummary_def scenario_conversation_def mk_message_def
        scenario_question_def d)
qed

lemma scenario_fallback: "fallbackCategorization (parse scenario) = scenario_categorization"
  by (simp add: scenario_parse fallbackCategorization_def Let_def scenario_highlights
      scenario_topics scenario_summary scenario_categorization_def)

text \<open>C2, as stated, fails: with no oracle the pipeline extracts no highlight from
  the scenario text, so there is neither a question highlight nor an
  action-item highlight, and the lists of questions and action items are
  empty.\<close>

theorem scenario_counterexample:
  "highlights (projr (categorizeConversation None (parse_as (scored_result 1)) (parse scenario)))
     = []
   \<and> questions (projr (categorizeConversation None (parse_as (scored_result 1)) (parse scenario)))
     = []
   \<and> action_items (projr (categorizeConversation None (parse_as (scored_result 1)) (parse scenario)))
     = []"
  by (simp add: categorizeConversation_def scenario_fallback scenario_categorization_def)

text \<open>C2, amended. For the scenario text and no oracle, the pipeline yields exactly
  two messages, the user's \<open>What is a closure?\<close> and then the assistant's
  answer, no highlight at all (the question stands in the user's message, which
  the fallback path does not scan, and the marker \<open>TODO\<close> does not stand at the
  start of a line), and the key topics \<open>[General Discussion]\<close>.\<close>

theorem scenario_result:
  "map role (messages (parse scenario)) = [User, Assistant]
   \<and> map content (messages (parse scenario))
       = [''What is a closure?'',
          ''A closure is a function bundled with its lexical scope. TODO: read more.'']
   \<and> categorizeConversation None json_parse (parse scenario)
       = Inr \<lparr>highlights = [],
              summary =
                ''Conversation about What is a closure? with 1 user questions and 1 AI responses.'',
              key_topics = [''General Discussion''],
              action_items = [],
              resources = [],
              questions = []\<rparr>"
proof -
  have "map role (messages (parse scenario)) = [User, Assistant]"
    by (simp add: scenario_parse scenario_conversation_def mk_message_def)
  moreover have "map content (messages (parse scenario))
       = [''What is a closure?'',
          ''A closure is a function bundled with its lexical scope. TODO: read more.'']"
    by (simp add: scenario_parse scenario_conversation_def mk_message_def
        scenario_question_def scenario_answer_def)
  moreover have "categorizeConversation None json_parse (parse scenario)
       = Inr scenario_categorization"
    by (simp add: categorizeConversation_def scenario_fallback)
  ultimately show ?thesis
    by (simp only: scenario_categorization_def) 
qed

subsection \<open>Positions on the two paths\<close>

text \<open>The conversation of the previous subsection is the one \<open>parse\<close> builds from
  this text.\<close>

definition todo_text :: string where
  "todo_text = ''Assistant: TODO: read more.''"

lemma todo_parse: "parse todo_text = todo_conversation"
proof -
  have c: "map canonicalize todo_text = ''ASSISTANT: TODO: READ MORE.''"
    by code_simp
  have s: "detectSource todo_text = ''custom''"
    by (rule detectSource_custom) (simp add: canonical_patterns c)
  have m: "parse_messages custom_boundary todo_text = [mk_message Assistant ''TODO: read more.'']"
    by code_simp
  have l: "toLowerCase todo_text = ''assistant: todo: read more.''"
    by code_simp
  have t: "extractTags todo_text = []"
  proof -
    have "\<not> includes_str todo_text ''```''"
      by (simp add: todo_text_def)
    then show ?thesis by (simp add: extractTags_def l)
  qed
  have g: "parser_categorizeConversation [mk_message Assistant ''TODO: read more.''] = ''general''"
    by code_simp
  have r: "role (mk_message Assistant ''TODO: read more.'') = Assistant"
    by (simp add: mk_message_def)
  show ?thesis
    by (simp add: parse_def Let_def s parseCustom_def mk_conversation_def m t g
        extractTitle_def r todo_conversation_def)
qed

text \<open>On the oracle path every highlight of the result has passed the validator:
  its message exists and the trimmed text between its offsets is its trimmed
  content.\<close>

lemma validateHighlight_roundtrip:
  assumes "validateHighlight h c = Inr True"
  shows "\<exists>k<length (messages c). messageIndex (position h) = real k
         \<and> trim (substring (content (messages c ! k))
                   (startChar (position h)) (endChar (position h)))
             = trim (h_content h)"
proof -
  let ?mi = "messageIndex (position h)"
  from assms have range: "0 \<le> ?mi" "?mi < real (length (messages c))"
    by (auto simp: validateHighlight_def Let_def split: if_splits)
  with assms have "array_get (messages c) ?mi \<noteq> None"
    by (auto simp: validateHighlight_def Let_def split: if_splits option.splits)
  then have whole: "?mi = of_int \<lfloor>?mi\<rfloor>"
    by (auto simp: array_get_def split: if_splits)
  with range have g: "array_get (messages c) ?mi = Some (messages c ! nat \<lfloor>?mi\<rfloor>)"
    by (simp add: array_get_def)
  from range have k: "nat \<lfloor>?mi\<rfloor> < length (messages c)"
    by (simp add: floor_less_iff nat_less_iff)
  from whole range have m: "?mi = real (nat \<lfloor>?mi\<rfloor>)"
    by simp
  from assms range g have "trim (substring (content (messages c ! nat \<lfloor>?mi\<rfloor>))
                   (startChar (position h)) (endChar (position h)))
             = trim (h_content h)"
    by (auto simp: validateHighlight_def Let_def split: if_splits)
  with k m show ?thesis by blast
qed

lemma oracle_path_roundtrip:
  assumes "validateAndEnhanceResult result c = Inr r" and "h \<in> set (highlights r)"
  shows "\<exists>k<length (messages c). messageIndex (position h) = real k
         \<and> trim (substring (content (messages c ! k))
                   (startChar (position h)) (endChar (position h)))
             = trim (h_content h)"
proof -
  from assms obtain hs vs where vs: "filter_valid hs c = Inr vs"
    and r: "highlights r = map (\<lambda>h. enhanceHighlight h c) vs"
    by (auto simp: validateAndEnhanceResult_def split: option.splits sum.splits)
  from r assms(2) obtain h0 where h0: "h0 \<in> set vs" "h = enhanceHighlight h0 c" by auto
  from filter_valid_Inr [OF vs] h0(1) have "validateHighlight h0 c = Inr True"
    by simp
  from validateHighlight_roundtrip [OF this] h0(2) show ?thesis
    by (simp add: enhanceHighlight_def Let_def)
qed

text \<open>On the fallback path the code blocks and the questions stand where their
  positions say; only the action items do not.\<close>

lemma trim_trim: "trim (trim s) = trim s"
proof -
  define a where "a = dropWhile isWhiteSpace s"
  define b where "b = dropWhile isWhiteSpace (rev a)"
  have t: "trim s = rev b"
    by (simp add: trim_def trimStart_def trimEnd_def a_def b_def)
  have front: "dropWhile isWhiteSpace (rev b) = rev b"
  proof (cases "b = []")
    case True
    then show ?thesis by simp
  next
    case False
    have "rev a = takeWhile isWhiteSpace (rev a) @ b"
      by (simp add: b_def)
    with False have "last b = last (rev a)"
      by (metis last_appendR)
    moreover from False have ne: "a \<noteq> []" by (auto simp: b_def)
    ultimately have "last b = hd a" by (simp add: last_rev)
    moreover from ne have "\<not> isWhiteSpace (hd a)"
      unfolding a_def by (rule hd_dropWhile)
    ultimately have "\<not> isWhiteSpace (hd (rev b))"
      using False by (simp add: hd_rev)
    then show ?thesis by (cases "rev b") auto
  qed
  have rear: "dropWhile isWhiteSpace b = b"
  proof (cases "b = []")
    case True
    then show ?thesis by simp
  next
    case False
    then have "\<not> isWhiteSpace (hd b)"
      unfolding b_def by (rule hd_dropWhile)
    with False show ?thesis by (cases b) auto
  qed
  show ?thesis
    by (simp add: t) (simp add: trim_def trimStart_def trimEnd_def front rear)
qed

lemma codeBlockRegex_at_prefix:
  assumes "codeBlockRegex_at x = Some m"
  shows "m = take (length m) x \<and> length m \<le> length x"
proof -
  from assms obtain j where j: "indexOf (drop 3 x) ''```'' = Some j" and m: "m = take (3 + j + 3) x"
    and sw: "startsWith x ''```''"
    by (auto simp: codeBlockRegex_at_def split: if_splits option.splits)
  from indexOf_le [OF j] startsWith_length [OF sw] have "3 + j + 3 \<le> length x" by simp
  with m show ?thesis by simp
qed

lemma questionRegex_at_prefix:
  assumes "questionRegex_at x = Some m"
  shows "m = take (length m) x \<and> length m \<le> length x"
proof -
  from star_greedy_Some [OF assms [unfolded questionRegex_at_def]]
  obtain n where n: "(case drop n x of
                     [] \<Rightarrow> None
                   | c # _ \<Rightarrow> if c = CHR ''?'' then Some (take (Suc n) x) else None) = Some m"
    by blast
  then have "drop n x \<noteq> []" by (cases "drop n x") auto
  then have "Suc n \<le> length x" by simp
  moreover from n have "m = take (Suc n) x"
    by (cases "drop n x") (auto split: if_splits)
  ultimately show ?thesis by simp
qed

lemma codeBlockRegex_exec_span:
  "m \<in> set (codeBlockRegex_exec s i)
   \<Longrightarrow> m0 m \<noteq> [] \<and> index m + length (m0 m) \<le> length s
       \<and> m0 m = take (length (m0 m)) (drop (index m) s)"
proof (induction s i rule: codeBlockRegex_exec.induct)
  case (1 s i)
  show ?case
  proof (cases "length s < i")
    case True
    with "1.prems" show ?thesis by (subst (asm) codeBlockRegex_exec.simps) simp
  next
    case inside: False
    show ?thesis
    proof (cases "codeBlockRegex_at (drop i s)")
      case None
      with inside "1.prems" have "m \<in> set (codeBlockRegex_exec s (Suc i))"
        by (subst (asm) codeBlockRegex_exec.simps) simp
      with inside None "1.IH"(1) show ?thesis by blast
    next
      case (Some x)
      with inside "1.prems"
      have "m = \<lparr>index = i, m0 = x, m1 = []\<rparr> \<or> m \<in> set (codeBlockRegex_exec s (i + length x))"
        by (subst (asm) codeBlockRegex_exec.simps) simp
      then show ?thesis
      proof
        assume e: "m = \<lparr>index = i, m0 = x, m1 = []\<rparr>"
        from codeBlockRegex_at_prefix [OF Some] have "x = take (length x) (drop i s)"
          and "length x \<le> length (drop i s)"
          by simp_all
        with codeBlockRegex_at_nonempty [OF Some] inside e show ?thesis by auto
      next
        assume "m \<in> set (codeBlockRegex_exec s (i + length x))"
        with inside Some "1.IH"(2) show ?thesis by blast
      qed
    qed
  qed
qed

lemma questionRegex_exec_span:
  "m \<in> set (questionRegex_exec s i)
   \<Longrightarrow> m0 m \<noteq> [] \<and> index m + length (m0 m) \<le> length s
       \<and> m0 m = take (length (m0 m)) (drop (index m) s)"
proof (induction s i rule: questionRegex_exec.induct)
  case (1 s i)
  show ?case
  proof (cases "length s < i")
    case True
    with "1.prems" show ?thesis by (subst (asm) questionRegex_exec.simps) simp
  next
    case inside: False
    show ?thesis
    proof (cases "questionRegex_at (drop i s)")
      case None
      with inside "1.prems" have "m \<in> set (questionRegex_exec s (Suc i))"
        by (subst (asm) questionRegex_exec.simps) simp
      with inside None "1.IH"(1) show ?thesis by blast
    next
      case (Some x)
      with inside "1.prems"
      have "m = \<lparr>index = i, m0 = x, m1 = []\<rparr> \<or> m \<in> set (questionRegex_exec s (i + length x))"
        by (subst (asm) questionRegex_exec.simps) simp
      then show ?thesis
      proof
        assume e: "m = \<lparr>index = i, m0 = x, m1 = []\<rparr>"
        from questionRegex_at_prefix [OF Some] have "x = take (length x) (drop i s)"
          and "length x \<le> length (drop i s)"
          by simp_all
        with questionRegex_at_nonempty [OF Some] inside e show ?thesis by auto
      next
        assume "m \<in> set (questionRegex_exec s (i + length x))"
        with inside Some "1.IH"(2) show ?thesis by blast
      qed
    qed
  qed
qed

lemma span_substring:
  assumes "m0 m \<noteq> []" and "index m + length (m0 m) \<le> length s"
    and "m0 m = take (length (m0 m)) (drop (index m) s)"
  shows "0 \<le> startChar (span mi m) \<and> startChar (span mi m) < endChar (span mi m)
         \<and> endChar (span mi m) \<le> real (length s)
         \<and> messageIndex (span mi m) = real mi
         \<and> substring s (startChar (span mi m)) (endChar (span mi m)) = m0 m"
proof -
  from assms(1) have pos: "0 < length (m0 m)" by simp
  from substring_whole [OF assms(2)] assms(3)
  have "substring s (real (index m)) (real (index m + length (m0 m))) = m0 m"
    by simp
  with pos assms(2) show ?thesis by (simp add: span_def)
qed

lemma fallback_position:
  "h \<in> set (fallback_highlights ms i) \<Longrightarrow> h_category h \<noteq> Action_item
   \<Longrightarrow> \<exists>k<length ms. messageIndex (position h) = real (i + k)
         \<and> 0 \<le> startChar (position h) \<and> startChar (position h) < endChar (position h)
         \<and> endChar (position h) \<le> real (length (content (ms ! k)))
         \<and> trim (substring (content (ms ! k)) (startChar (position h)) (endChar (position h)))
             = trim (h_content h)"
proof (induction ms arbitrary: i)
  case Nil
  then show ?case by simp
next
  case (Cons msg ms)
  from Cons.prems(1)
  consider (code) "h \<in> set (extractCodeBlocks (content msg) i)"
    | (action) "h \<in> set (extractActionItems (content msg) i)"
    | (question) "h \<in> set (extractQuestions (content msg) i)"
    | (rest) "h \<in> set (fallback_highlights ms (Suc i))"
    by (auto split: if_splits)
  then show ?case
  proof cases
    case code
    then obtain m where m: "m \<in> set (codeBlockRegex_exec (content msg) 0)"
      and h: "h_content h = m0 m" "position h = span i m"
      by (auto simp: extractCodeBlocks_def)
    from codeBlockRegex_exec_span [OF m] have
      "m0 m \<noteq> []" "index m + length (m0 m) \<le> length (content msg)"
      "m0 m = take (length (m0 m)) (drop (index m) (content msg))"
      by simp_all
    from span_substring [OF this, of i] h
    have "messageIndex (position h) = real (i + 0)
         \<and> 0 \<le> startChar (position h) \<and> startChar (position h) < endChar (position h)
         \<and> endChar (position h) \<le> real (length (content ((msg # ms) ! 0)))
         \<and> trim (substring (content ((msg # ms) ! 0)) (startChar (position h)) (endChar (position h)))
             = trim (h_content h)"
      by simp
    then show ?thesis by (intro exI [of _ 0]) simp
  next
    case action
    with Cons.prems(2) show ?thesis by (auto simp: extractActionItems_def)
  next
    case question
    then obtain m where m: "m \<in> set (questionRegex_exec (content msg) 0)"
      and h: "h_content h = trim (m0 m)" "position h = span i m"
      by (auto simp: extractQuestions_def)
    from questionRegex_exec_span [OF m] have
      "m0 m \<noteq> []" "index m + length (m0 m) \<le> length (content msg)"
      "m0 m = take (length (m0 m)) (drop (index m) (content msg))"
      by simp_all
    from span_substring [OF this, of i] h
    have "messageIndex (position h) = real (i + 0)
         \<and> 0 \<le> startChar (position h) \<and> startChar (position h) < endChar (position h)
         \<and> endChar (position h) \<le> real (length (content ((msg # ms) ! 0)))
         \<and> trim (substring (content ((msg # ms) ! 0)) (startChar (position h)) (endChar (position h)))
             = trim (h_content h)"
      by (simp add: trim_trim)
    then show ?thesis by (intro exI [of _ 0]) simp
  next
    case rest
    from Cons.IH [OF rest Cons.prems(2)] obtain k where k: "k < length ms"
      "messageIndex (position h) = real (Suc i + k)"
      "0 \<le> startChar (position h)" "startChar (position h) < endChar (position h)"
      "endChar (position h) \<le> real (length (content (ms ! k)))"
      "trim (substring (content (ms ! k)) (startChar (position h)) (endChar (position h)))
         = trim (h_content h)"
      by blast
    then show ?thesis by (intro exI [of _ "Suc k"]) simp
  qed
qed

lemma fallback_path_roundtrip:
  assumes "h \<in> set (highlights (fallbackCategorization c))" and "h_category h \<noteq> Action_item"
  shows "validateHighlight h c = Inr True"
proof -
  from assms(1) have "h \<in> set (fallback_highlights (messages c) 0)"
    by (simp add: fallbackCategorization_def Let_def)
  from fallback_position [OF this assms(2)] obtain k where k: "k < length (messages c)"
      "messageIndex (position h) = real k"
      "0 \<le> startChar (position h)" "startChar (position h) < endChar (position h)"
      "endChar (position h) \<le> real (length (content (messages c ! k)))"
      "trim (substring (content (messages c ! k)) (startChar (position h)) (endChar (position h)))
         = trim (h_content h)"
    by auto
  then show ?thesis
    by (simp add: validateHighlight_def Let_def array_get_def)
qed

text \<open>C1 fails on the fallback path. For the text \<open>Assistant: TODO: read more.\<close>
  the action item extracted from the message \<open>TODO: read more.\<close> has the
  content \<open>read more.\<close>, the group of the pattern, and the offsets 0 and 16
  of the whole match; the text between the offsets is \<open>TODO: read more.\<close>, and
  the validator of the oracle path rejects the highlight.\<close>

theorem action_item_position_mismatch:
  "parse todo_text = todo_conversation
   \<and> highlights (fallbackCategorization todo_conversation) = [todo_highlight]
   \<and> trim (substring (content (messages todo_conversation ! 0))
            (startChar (position todo_highlight)) (endChar (position todo_highlight)))
       = ''TODO: read more.''
   \<and> trim (h_content todo_highlight) = ''read more.''
   \<and> validateHighlight todo_highlight todo_conversation = Inr False"
proof -
  have h: "highlights (fallbackCategorization todo_conversation) = [todo_highlight]"
    by (simp add: fallbackCategorization_def Let_def todo_fallback_highlights)
  have s: "trim (substring (content (messages todo_conversation ! 0))
            (startChar (position todo_highlight)) (endChar (position todo_highlight)))
       = ''TODO: read more.''"
    by (simp add: todo_conversation_def mk_message_def todo_highlight_def substring_def
        toInteger_def trim_def trimStart_def trimEnd_def isWhiteSpace_def)
  have t: "trim (h_content todo_highlight) = ''read more.''"
    by (simp add: todo_highlight_def trim_def trimStart_def trimEnd_def isWhiteSpace_def)
  have v: "validateHighlight todo_highlight todo_conversation = Inr False"
    by (simp add: validateHighlight_def todo_conversation_def mk_message_def todo_highlight_def
        array_get_def substring_def toInteger_def trim_def trimStart_def trimEnd_def
        isWhiteSpace_def)
  from todo_parse h s t v show ?thesis by simp
qed

end
